theory Spec2Isabelle
  imports Main
begin

section \<open>Python values\<close>

text \<open>
  The monitor of \<^verbatim>\<open>src/app.py\<close> works on decoded JSON payloads without declaring
  their shape, so the model keeps them as JSON values and writes out what Python does
  when a value has the wrong shape. A \<open>JDict\<close> is a Python dict with string keys, an
  association list in insertion order whose keys are distinct. JSON numbers are
  integers here; identifiers of the primary system are strings, and the cross-type key
  equality of Python (\<^verbatim>\<open>1 == True\<close>) is not modelled: keys are compared structurally.
\<close>

datatype json =
    JNull
  | JBool bool
  | JInt int
  | JStr string
  | JList "json list"
  | JDict "(string \<times> json) list"

datatype py_error = AttributeError | TypeError | KeyError

text \<open>Truth value of an object, as \<^verbatim>\<open>if x:\<close> tests it.\<close>

fun truthy :: "json \<Rightarrow> bool" where
  "truthy JNull = False"
| "truthy (JBool b) = b"
| "truthy (JInt n) = (n \<noteq> 0)"
| "truthy (JStr s) = (s \<noteq> [])"
| "truthy (JList xs) = (xs \<noteq> [])"
| "truthy (JDict kvs) = (kvs \<noteq> [])"

text \<open>\<^verbatim>\<open>obj.get(key, default)\<close>: only a dict has the method.\<close>

fun dict_get :: "json \<Rightarrow> string \<Rightarrow> json \<Rightarrow> py_error + json" where
  "dict_get (JDict kvs) k d = Inr (case map_of kvs k of None \<Rightarrow> d | Some v \<Rightarrow> v)"
| "dict_get _ k d = Inl AttributeError"

text \<open>\<^verbatim>\<open>obj[key]\<close> with a string key.\<close>

fun subscript :: "json \<Rightarrow> string \<Rightarrow> py_error + json" where
  "subscript (JDict kvs) k = (case map_of kvs k of None \<Rightarrow> Inl KeyError | Some v \<Rightarrow> Inr v)"
| "subscript _ k = Inl TypeError"

text \<open>
  The elements a \<^verbatim>\<open>for\<close> loop visits: the items of a list, the characters of a
  string, the keys of a dict; anything else is not iterable.
\<close>

fun iterate :: "json \<Rightarrow> py_error + json list" where
  "iterate (JList xs) = Inr xs"
| "iterate (JStr s) = Inr (map (\<lambda>c. JStr [c]) s)"
| "iterate (JDict kvs) = Inr (map (\<lambda>kv. JStr (fst kv)) kvs)"
| "iterate _ = Inl TypeError"

text \<open>Lists and dicts cannot be dict keys or members of a tuple used as a key.\<close>

fun hashable :: "json \<Rightarrow> bool" where
  "hashable (JList xs) = False"
| "hashable (JDict kvs) = False"
| "hashable _ = True"

text \<open>
  \<^verbatim>\<open>d[k] = v\<close> on a dict held as an association list: an existing key keeps its place
  and takes the new value, a new key goes to the end.
\<close>

fun dict_set :: "'k \<Rightarrow> 'v \<Rightarrow> ('k \<times> 'v) list \<Rightarrow> ('k \<times> 'v) list" where
  "dict_set k v [] = [(k, v)]"
| "dict_set k v ((k', v') # rest) =
     (if k' = k then (k, v) # rest else (k', v') # dict_set k v rest)"

section \<open>String operations\<close>

text \<open>\<^verbatim>\<open>s.split(sep)\<close> for a one-character separator.\<close>

fun split :: "char \<Rightarrow> string \<Rightarrow> string list" where
  "split sep [] = [[]]"
| "split sep (c # cs) =
     (if c = sep then [] # split sep cs
      else (case split sep cs of [] \<Rightarrow> [[c]] | w # ws \<Rightarrow> (c # w) # ws))"

text \<open>\<^verbatim>\<open>sep.join(parts)\<close> for parts that are all strings.\<close>

fun join :: "char \<Rightarrow> string list \<Rightarrow> string" where
  "join sep [] = []"
| "join sep [s] = s"
| "join sep (s # t # rest) = s @ sep # join sep (t # rest)"

text \<open>
  \<^verbatim>\<open>s.rsplit(sep, 1)\<close>: one split at the last occurrence of the separator, none when
  the separator does not occur.
\<close>

definition rsplit1 :: "char \<Rightarrow> string \<Rightarrow> string list" where
  "rsplit1 sep s =
     (let r = rev s; tail_rev = takeWhile (\<lambda>c. c \<noteq> sep) r; rest = dropWhile (\<lambda>c. c \<noteq> sep) r
      in (case rest of [] \<Rightarrow> [s] | _ # head_rev \<Rightarrow> [rev head_rev, rev tail_rev]))"

section \<open>Basename extraction\<close>

text \<open>
  The loop of \<^verbatim>\<open>extract_primary_file_basename\<close> over the entries of
  \<^verbatim>\<open>files_info.get('data', [])\<close>. The result is the returned object: a string, or
  \<open>JNull\<close> for \<^verbatim>\<open>None\<close>. \<^verbatim>\<open>file_name.rsplit\<close> exists on strings only.
\<close>

fun scan_files :: "json list \<Rightarrow> py_error + json" where
  "scan_files [] = Inr JNull"
| "scan_files (file_data # rest) =
     (case dict_get file_data ''presetTag'' JNull of
        Inl e \<Rightarrow> Inl e
      | Inr tag \<Rightarrow>
          if tag = JStr ''Primary'' then
            (case dict_get file_data ''fileName'' JNull of
               Inl e \<Rightarrow> Inl e
             | Inr file_name \<Rightarrow>
                 if truthy file_name then
                   (case file_name of
                      JStr s \<Rightarrow> Inr (JStr (hd (rsplit1 CHR ''.'' s)))
                    | _ \<Rightarrow> Inl AttributeError)
                 else scan_files rest)
          else scan_files rest)"

definition extract_primary_file_basename :: "json \<Rightarrow> py_error + json" where
  "extract_primary_file_basename files_info =
     (case dict_get files_info ''data'' (JList []) of
        Inl e \<Rightarrow> Inl e
      | Inr d \<Rightarrow> (case iterate d of Inl e \<Rightarrow> Inl e | Inr entries \<Rightarrow> scan_files entries))"

section \<open>The monitor and the systems it talks to\<close>

text \<open>
  One HTTP request of the monitor. A request made through the session (the two GETs on
  the primary system) is retried by the adapter on 502, 503 and 504; the model takes the
  outcome after the retries as the one outcome of the request.
\<close>

datatype call =
    GetActiveJobsInfo
  | GetFiles json json
  | GetSources
  | PutRecordingName int json
  | GetRecord int
  | GetStop int

text \<open>
  What a request gives back: \<open>RequestException\<close> stands for every failure of the
  transport and for a status that \<^verbatim>\<open>raise_for_status\<close> rejects, \<open>JSONDecodeError\<close>
  for a body that \<^verbatim>\<open>response.json()\<close> cannot decode, \<open>Body\<close> for a decoded body.
\<close>

datatype response = RequestException | JSONDecodeError | Body json

text \<open>
  The primary system and the recorder are outside the program. They are a function
  from the requests made so far and the request made now to its outcome, so that an
  answer may depend on everything the monitor has done before.
\<close>

type_synonym env = "call list \<Rightarrow> call \<Rightarrow> response"

datatype level = INFO | ERROR

text \<open>
  A log record is its level, the text of the message as the source writes it, and the
  values of the fields the message formats (the text of a caught exception is left out).
\<close>

type_synonym log_entry = "level \<times> string \<times> json list"

text \<open>The state file: absent, present but not readable, not JSON, or a JSON document.\<close>

datatype state_file_content = NoFile | Unreadable | Undecodable | Doc json

text \<open>
  A key of \<^verbatim>\<open>previous_active_jobs\<close> is a tuple: \<^verbatim>\<open>(ingest_id, job_id)\<close> from a cycle,
  \<^verbatim>\<open>tuple(k.split('|'))\<close> from the state file. A value is the job's dict when it comes
  from a cycle and whatever the file holds when it comes from the file.
\<close>

type_synonym job_key = "json list"
type_synonym jobs = "(job_key \<times> json) list"

record monitor =
  previous_active_jobs :: jobs
  state_file :: state_file_content
  makedirs_ok :: bool
  open_write_ok :: bool
  trace :: "call list"
  log :: "log_entry list"

definition logging :: "level \<Rightarrow> string \<Rightarrow> json list \<Rightarrow> monitor \<Rightarrow> monitor" where
  "logging lvl msg args st = st\<lparr>log := log st @ [(lvl, msg, args)]\<rparr>"

definition request :: "env \<Rightarrow> call \<Rightarrow> monitor \<Rightarrow> response \<times> monitor" where
  "request env c st = (env (trace st) c, st\<lparr>trace := trace st @ [c]\<rparr>)"

definition ingest_id_map :: "(string \<times> string) list" where
  "ingest_id_map =
     [(''9C64992CFF3A4A3FA3C635BB7D9B6071'', ''PCR 1''),
      (''9526F8488B06423C8C81B942B3D04B89'', ''PCR 2''),
      (''69774E0644F94C89A87785972AB7057A'', ''PCR 3''),
      (''53994615DC194483B753424DAD50EFE5'', ''PCR 4'')]"

definition logical_name_to_dvr_source_id :: "(string \<times> int) list" where
  "logical_name_to_dvr_source_id =
     [(''PCR 1'', 0), (''PCR 2'', 1), (''PCR 3'', 2), (''PCR 4'', 3)]"

text \<open>
  \<^verbatim>\<open>table.get(key)\<close> on a dict with string keys, for any key object: an unhashable
  key raises, a key that is not a string is not found.
\<close>

fun table_get :: "(string \<times> 'v) list \<Rightarrow> json \<Rightarrow> py_error + 'v option" where
  "table_get table (JStr s) = Inr (map_of table s)"
| "table_get table key = (if hashable key then Inr None else Inl TypeError)"

section \<open>Primary job source client\<close>

definition get_active_jobs_info :: "env \<Rightarrow> monitor \<Rightarrow> json list \<times> monitor" where
  "get_active_jobs_info env st =
     (case request env GetActiveJobsInfo st of
        (RequestException, st1) \<Rightarrow>
          ([], logging ERROR ''Failed to get active jobs info: {e}'' [] st1)
      | (JSONDecodeError, st1) \<Rightarrow>
          ([], logging ERROR ''JSON decoding error while getting active jobs info: {e}'' [] st1)
      | (Body (JList data), st1) \<Rightarrow> (data, st1)
      | (Body _, st1) \<Rightarrow>
          ([], logging ERROR ''Invalid active jobs info format. Expected a list.'' [] st1))"

definition get_files_info :: "env \<Rightarrow> json \<Rightarrow> json \<Rightarrow> monitor \<Rightarrow> json \<times> monitor" where
  "get_files_info env ingest_id job_id st =
     (case request env (GetFiles ingest_id job_id) st of
        (RequestException, st1) \<Rightarrow>
          (JDict [],
           logging ERROR ''Failed to get files info for ingest {ingest_id}, job {job_id}: {e}''
             [ingest_id, job_id] st1)
      | (JSONDecodeError, st1) \<Rightarrow>
          (JDict [],
           logging ERROR
             ''JSON decoding error while getting files info for ingest {ingest_id}, job {job_id}: {e}''
             [ingest_id, job_id] st1)
      | (Body (JDict data), st1) \<Rightarrow> (JDict data, st1)
      | (Body _, st1) \<Rightarrow>
          (JDict [],
           logging ERROR
             ''Invalid files info format for ingest {ingest_id}, job {job_id}. Expected a dictionary.''
             [ingest_id, job_id] st1))"

definition extract_basename ::
  "env \<Rightarrow> json \<Rightarrow> json \<Rightarrow> monitor \<Rightarrow> (py_error + json) \<times> monitor" where
  "extract_basename env ingest_id job_id st =
     (case get_files_info env ingest_id job_id st of
        (files_info, st1) \<Rightarrow> (extract_primary_file_basename files_info, st1))"

section \<open>Secondary recorder client\<close>

text \<open>
  \<^verbatim>\<open>is_dvr_recording\<close> returns the object stored under \<^verbatim>\<open>is_recording\<close>, or
  \<^verbatim>\<open>False\<close>. \<^verbatim>\<open>source.get\<close> is outside the inner \<^verbatim>\<open>try\<close>'s handlers when it
  raises \<^verbatim>\<open>AttributeError\<close>, so that error leaves the function.
\<close>

definition is_dvr_recording :: "env \<Rightarrow> int \<Rightarrow> monitor \<Rightarrow> (py_error + json) \<times> monitor" where
  "is_dvr_recording env dvr_source_id st =
     (case request env GetSources st of
        (RequestException, st1) \<Rightarrow>
          (Inr (JBool False), logging ERROR ''Failed to get DVR sources: {e}'' [] st1)
      | (JSONDecodeError, st1) \<Rightarrow>
          (Inr (JBool False),
           logging ERROR ''JSON decoding error while getting DVR sources: {e}'' [] st1)
      | (Body (JList sources), st1) \<Rightarrow>
          if 0 \<le> dvr_source_id \<and> dvr_source_id < int (length sources) then
            (dict_get (sources ! nat dvr_source_id) ''is_recording'' (JBool False), st1)
          else
            (Inr (JBool False),
             logging ERROR ''DVR source ID {dvr_source_id} is out of range.''
               [JInt dvr_source_id] st1)
      | (Body _, st1) \<Rightarrow>
          (Inr (JBool False),
           logging ERROR ''Invalid sources data format. Expected a list.'' [] st1))"

definition start_secondary_recording ::
  "env \<Rightarrow> json \<Rightarrow> json \<Rightarrow> monitor \<Rightarrow> (py_error + unit) \<times> monitor" where
  "start_secondary_recording env basename logical_name st =
     (case table_get logical_name_to_dvr_source_id logical_name of
        Inl e \<Rightarrow> (Inl e, st)
      | Inr None \<Rightarrow>
          (Inr (),
           logging ERROR ''No DVR source ID found for logical name {logical_name}''
             [logical_name] st)
      | Inr (Some dvr_source_id) \<Rightarrow>
          (case is_dvr_recording env dvr_source_id st of
             (Inl e, st1) \<Rightarrow> (Inl e, st1)
           | (Inr is_recording, st1) \<Rightarrow>
               if truthy is_recording then
                 (Inr (),
                  logging INFO ''DVR for {logical_name} is already recording''
                    [logical_name] st1)
               else
                 (case request env (PutRecordingName dvr_source_id basename) st1 of
                    (RequestException, st2) \<Rightarrow>
                      (Inr (),
                       logging ERROR ''Failed to set recording name for {logical_name}: {e}''
                         [logical_name] st2)
                  | (_, st2) \<Rightarrow>
                      (case request env (GetRecord dvr_source_id)
                              (logging INFO ''Set recording name to {basename} for {logical_name}''
                                 [basename, logical_name] st2) of
                         (RequestException, st3) \<Rightarrow>
                           (Inr (),
                            logging ERROR ''Failed to start DVR recording for {logical_name}: {e}''
                              [logical_name] st3)
                       | (_, st3) \<Rightarrow>
                           (Inr (),
                            logging INFO ''Started DVR recording for {logical_name}''
                              [logical_name] st3)))))"

definition stop_secondary_recording ::
  "env \<Rightarrow> json \<Rightarrow> json \<Rightarrow> monitor \<Rightarrow> (py_error + unit) \<times> monitor" where
  "stop_secondary_recording env basename logical_name st =
     (case table_get logical_name_to_dvr_source_id logical_name of
        Inl e \<Rightarrow> (Inl e, st)
      | Inr None \<Rightarrow>
          (Inr (),
           logging ERROR ''No DVR source ID found for logical name {logical_name}''
             [logical_name] st)
      | Inr (Some dvr_source_id) \<Rightarrow>
          (case is_dvr_recording env dvr_source_id st of
             (Inl e, st1) \<Rightarrow> (Inl e, st1)
           | (Inr is_recording, st1) \<Rightarrow>
               if \<not> truthy is_recording then
                 (Inr (),
                  logging INFO ''DVR for {logical_name} is not recording'' [logical_name] st1)
               else
                 (case request env (GetStop dvr_source_id) st1 of
                    (RequestException, st2) \<Rightarrow>
                      (Inr (),
                       logging ERROR ''Failed to stop DVR recording for {logical_name}: {e}''
                         [logical_name] st2)
                  | (_, st2) \<Rightarrow>
                      (Inr (),
                       logging INFO ''Stopped DVR recording for {logical_name}''
                         [logical_name] st2))))"

section \<open>State store\<close>

text \<open>\<^verbatim>\<open>'|'.join(k)\<close> on a tuple: every member has to be a string.\<close>

fun strings_of :: "json list \<Rightarrow> py_error + string list" where
  "strings_of [] = Inr []"
| "strings_of (JStr s # rest) =
     (case strings_of rest of Inl e \<Rightarrow> Inl e | Inr ss \<Rightarrow> Inr (s # ss))"
| "strings_of (_ # rest) = Inl TypeError"

definition join_key :: "job_key \<Rightarrow> py_error + string" where
  "join_key k = (case strings_of k of Inl e \<Rightarrow> Inl e | Inr ss \<Rightarrow> Inr (join CHR ''|'' ss))"

text \<open>
  The comprehension \<^verbatim>\<open>{'|'.join(k): v for k, v in self.previous_active_jobs.items()}\<close>,
  with the dict built so far as accumulator.
\<close>

fun state_to_data :: "jobs \<Rightarrow> (string \<times> json) list \<Rightarrow> py_error + (string \<times> json) list" where
  "state_to_data [] acc = Inr acc"
| "state_to_data ((k, v) # rest) acc =
     (case join_key k of
        Inl e \<Rightarrow> Inl e
      | Inr s \<Rightarrow> state_to_data rest (dict_set s v acc))"

text \<open>The comprehension \<^verbatim>\<open>{tuple(k.split('|')): v for k, v in data.items()}\<close>.\<close>

fun data_to_state :: "(string \<times> json) list \<Rightarrow> jobs \<Rightarrow> jobs" where
  "data_to_state [] acc = acc"
| "data_to_state ((k, v) # rest) acc =
     data_to_state rest (dict_set (map JStr (split CHR ''|'' k)) v acc)"

text \<open>
  \<^verbatim>\<open>save_state\<close>: the directory is made, then the data is built, then the file is
  opened and written. Every exception is caught and logged. \<^verbatim>\<open>json.dump\<close> followed by
  a later \<^verbatim>\<open>json.load\<close> is taken to give the document back.
\<close>

definition save_state :: "monitor \<Rightarrow> monitor" where
  "save_state st =
     (if \<not> makedirs_ok st then logging ERROR ''Failed to save state file: {e}'' [] st
      else
        (case state_to_data (previous_active_jobs st) [] of
           Inl e \<Rightarrow> logging ERROR ''Unexpected error saving state file: {e}'' [] st
         | Inr data \<Rightarrow>
             if \<not> open_write_ok st then logging ERROR ''Failed to save state file: {e}'' [] st
             else st\<lparr>state_file := Doc (JDict data)\<rparr>))"

definition load_state :: "monitor \<Rightarrow> monitor" where
  "load_state st =
     (case state_file st of
        NoFile \<Rightarrow>
          logging INFO ''No previous state file found. Starting fresh.'' []
            (st\<lparr>previous_active_jobs := []\<rparr>)
      | Unreadable \<Rightarrow>
          (logging ERROR ''Failed to read state file: {e}'' [] st)\<lparr>previous_active_jobs := []\<rparr>
      | Undecodable \<Rightarrow>
          (logging ERROR ''JSON decoding error in state file: {e}'' [] st)
            \<lparr>previous_active_jobs := []\<rparr>
      | Doc (JDict data) \<Rightarrow>
          logging INFO ''Loaded previous state from file.'' []
            (st\<lparr>previous_active_jobs := data_to_state data []\<rparr>)
      | Doc _ \<Rightarrow>
          logging INFO ''Loaded previous state from file.'' []
            ((logging ERROR ''Invalid state file format. Expected a dictionary.'' [] st)
               \<lparr>previous_active_jobs := []\<rparr>))"

section \<open>Status surface\<close>

text \<open>\<^verbatim>\<open>v.copy()\<close>: dicts and lists have the method.\<close>

fun py_copy :: "json \<Rightarrow> py_error + json" where
  "py_copy (JDict kvs) = Inr (JDict kvs)"
| "py_copy (JList xs) = Inr (JList xs)"
| "py_copy _ = Inl AttributeError"

fun status_of :: "jobs \<Rightarrow> (string \<times> json) list \<Rightarrow> py_error + (string \<times> json) list" where
  "status_of [] acc = Inr acc"
| "status_of ((k, v) # rest) acc =
     (case join_key k of
        Inl e \<Rightarrow> Inl e
      | Inr s \<Rightarrow> (case py_copy v of Inl e \<Rightarrow> Inl e | Inr v' \<Rightarrow> status_of rest (dict_set s v' acc)))"

definition get_current_status :: "monitor \<Rightarrow> py_error + (string \<times> json) list" where
  "get_current_status st = status_of (previous_active_jobs st) []"

section \<open>Reconciliation engine\<close>

definition job_info :: "json \<Rightarrow> string \<Rightarrow> json" where
  "job_info basename logical_name =
     JDict [(''basename'', basename), (''logical_name'', JStr logical_name)]"

text \<open>\<^verbatim>\<open>self.ingest_id_map.get(ingest_id, "Unknown Ingest")\<close>.\<close>

definition logical_name_of :: "json \<Rightarrow> py_error + string" where
  "logical_name_of ingest_id =
     (case table_get ingest_id_map ingest_id of
        Inl e \<Rightarrow> Inl e
      | Inr None \<Rightarrow> Inr ''Unknown Ingest''
      | Inr (Some name) \<Rightarrow> Inr name)"

text \<open>The inner loop of \<^verbatim>\<open>process_polling_cycle\<close>, over the jobs of one ingest.\<close>

fun process_jobs ::
  "env \<Rightarrow> json \<Rightarrow> string \<Rightarrow> json list \<Rightarrow> jobs \<Rightarrow> monitor \<Rightarrow> (py_error + jobs) \<times> monitor" where
  "process_jobs env ingest_id logical_name [] current st = (Inr current, st)"
| "process_jobs env ingest_id logical_name (job # rest) current st =
     (case dict_get job ''id'' JNull of
        Inl e \<Rightarrow> (Inl e, st)
      | Inr job_id \<Rightarrow>
          (case extract_basename env ingest_id job_id st of
             (Inl e, st1) \<Rightarrow> (Inl e, st1)
           | (Inr basename, st1) \<Rightarrow>
               if truthy basename then
                 (if hashable ingest_id \<and> hashable job_id then
                    process_jobs env ingest_id logical_name rest
                      (dict_set [ingest_id, job_id] (job_info basename logical_name) current) st1
                  else (Inl TypeError, st1))
               else process_jobs env ingest_id logical_name rest current st1))"

text \<open>The outer loop, over the entries of the active-jobs list.\<close>

fun process_ingests ::
  "env \<Rightarrow> json list \<Rightarrow> jobs \<Rightarrow> monitor \<Rightarrow> (py_error + jobs) \<times> monitor" where
  "process_ingests env [] current st = (Inr current, st)"
| "process_ingests env (ingest # rest) current st =
     (case dict_get ingest ''ingestId'' JNull of
        Inl e \<Rightarrow> (Inl e, st)
      | Inr ingest_id \<Rightarrow>
          (case logical_name_of ingest_id of
             Inl e \<Rightarrow> (Inl e, st)
           | Inr logical_name \<Rightarrow>
               (case dict_get ingest ''activeJobsInfo'' (JList []) of
                  Inl e \<Rightarrow> (Inl e, st)
                | Inr jobs_obj \<Rightarrow>
                    (case iterate jobs_obj of
                       Inl e \<Rightarrow> (Inl e, st)
                     | Inr job_list \<Rightarrow>
                         (case process_jobs env ingest_id logical_name job_list current st of
                            (Inl e, st1) \<Rightarrow> (Inl e, st1)
                          | (Inr current1, st1) \<Rightarrow> process_ingests env rest current1 st1)))))"

text \<open>
  The two set differences. Python iterates a set in an order of its own; the model
  visits the keys in the order of the dict they come from. The theorems below speak of
  the keys as sets and of each key's call, not of the order between keys.
\<close>

definition new_jobs :: "jobs \<Rightarrow> jobs \<Rightarrow> job_key list" where
  "new_jobs current previous = filter (\<lambda>k. k \<notin> set (map fst previous)) (map fst current)"

definition stopped_jobs :: "jobs \<Rightarrow> jobs \<Rightarrow> job_key list" where
  "stopped_jobs current previous = filter (\<lambda>k. k \<notin> set (map fst current)) (map fst previous)"

text \<open>\<^verbatim>\<open>for key in new_jobs\<close>: \<^verbatim>\<open>current_active_jobs[key]\<close>, then the start.\<close>

fun start_new_jobs ::
  "env \<Rightarrow> jobs \<Rightarrow> job_key list \<Rightarrow> monitor \<Rightarrow> (py_error + unit) \<times> monitor" where
  "start_new_jobs env current [] st = (Inr (), st)"
| "start_new_jobs env current (key # rest) st =
     (case map_of current key of
        None \<Rightarrow> (Inl KeyError, st)
      | Some info \<Rightarrow>
          (case subscript info ''basename'' of
             Inl e \<Rightarrow> (Inl e, st)
           | Inr basename \<Rightarrow>
               (case subscript info ''logical_name'' of
                  Inl e \<Rightarrow> (Inl e, st)
                | Inr logical_name \<Rightarrow>
                    (case start_secondary_recording env basename logical_name st of
                       (Inl e, st1) \<Rightarrow> (Inl e, st1)
                     | (Inr u, st1) \<Rightarrow> start_new_jobs env current rest st1))))"

text \<open>
  \<^verbatim>\<open>for key in stopped_jobs\<close>: \<^verbatim>\<open>self.previous_active_jobs.get(key)\<close>, the test
  \<^verbatim>\<open>if job_info\<close>, then the stop.
\<close>

fun stop_stopped_jobs ::
  "env \<Rightarrow> jobs \<Rightarrow> job_key list \<Rightarrow> monitor \<Rightarrow> (py_error + unit) \<times> monitor" where
  "stop_stopped_jobs env previous [] st = (Inr (), st)"
| "stop_stopped_jobs env previous (key # rest) st =
     (case map_of previous key of
        None \<Rightarrow> stop_stopped_jobs env previous rest st
      | Some info \<Rightarrow>
          if truthy info then
            (case subscript info ''basename'' of
               Inl e \<Rightarrow> (Inl e, st)
             | Inr basename \<Rightarrow>
                 (case subscript info ''logical_name'' of
                    Inl e \<Rightarrow> (Inl e, st)
                  | Inr logical_name \<Rightarrow>
                      (case stop_secondary_recording env basename logical_name st of
                         (Inl e, st1) \<Rightarrow> (Inl e, st1)
                       | (Inr u, st1) \<Rightarrow> stop_stopped_jobs env previous rest st1)))
          else stop_stopped_jobs env previous rest st)"

text \<open>
  The part of the cycle before the lock: the fetch and the two loops that build
  \<^verbatim>\<open>current_active_jobs\<close>.
\<close>

definition fetch_current_active_jobs :: "env \<Rightarrow> monitor \<Rightarrow> (py_error + jobs) \<times> monitor" where
  "fetch_current_active_jobs env st =
     (case get_active_jobs_info env st of
        (active_jobs_info, st1) \<Rightarrow> process_ingests env active_jobs_info [] st1)"

definition process_polling_cycle :: "env \<Rightarrow> monitor \<Rightarrow> (py_error + unit) \<times> monitor" where
  "process_polling_cycle env st =
     (case fetch_current_active_jobs env st of
        (Inl e, st1) \<Rightarrow> (Inl e, st1)
      | (Inr current, st1) \<Rightarrow>
          (case start_new_jobs env current (new_jobs current (previous_active_jobs st1)) st1 of
             (Inl e, st2) \<Rightarrow> (Inl e, st2)
           | (Inr u, st2) \<Rightarrow>
               (case stop_stopped_jobs env (previous_active_jobs st2)
                       (stopped_jobs current (previous_active_jobs st2)) st2 of
                  (Inl e, st3) \<Rightarrow> (Inl e, st3)
                | (Inr u', st3) \<Rightarrow>
                    (Inr (), save_state (st3\<lparr>previous_active_jobs := current\<rparr>)))))"

text \<open>
  One turn of \<^verbatim>\<open>run_monitoring_loop\<close> (the sleep left out): an exception that leaves
  the cycle is logged and the loop goes on.
\<close>

definition monitoring_turn :: "env \<Rightarrow> monitor \<Rightarrow> monitor" where
  "monitoring_turn env st =
     (case process_polling_cycle env st of
        (Inl e, st1) \<Rightarrow>
          logging ERROR ''An unexpected error occurred in the monitoring loop: {e}'' [] st1
      | (Inr u, st1) \<Rightarrow> st1)"

section \<open>Predicates of the properties\<close>

text \<open>
  The definitions of this section are not code of the monitor: they name the shapes of
  input that the properties below speak of.
\<close>

fun is_dict :: "json \<Rightarrow> bool" where
  "is_dict (JDict kvs) = True"
| "is_dict _ = False"

fun is_list :: "json \<Rightarrow> bool" where
  "is_list (JList xs) = True"
| "is_list _ = False"

text \<open>An entry of a file listing whose tag marks it as the primary output.\<close>

definition primary_tagged :: "json \<Rightarrow> bool" where
  "primary_tagged file_data = (dict_get file_data ''presetTag'' JNull = Inr (JStr ''Primary''))"

text \<open>An entry whose \<^verbatim>\<open>fileName\<close> is missing, null or empty: the loop passes over it.\<close>

definition unnamed :: "json \<Rightarrow> bool" where
  "unnamed file_data =
     (case dict_get file_data ''fileName'' JNull of Inl e \<Rightarrow> False | Inr v \<Rightarrow> \<not> truthy v)"

text \<open>A job key made of two identifier strings without the separator.\<close>

fun ident_pair :: "job_key \<Rightarrow> bool" where
  "ident_pair [JStr a, JStr b] = (CHR ''|'' \<notin> set a \<and> CHR ''|'' \<notin> set b)"
| "ident_pair _ = False"

text \<open>A value of the job set as a cycle stores it.\<close>

fun is_job_info :: "json \<Rightarrow> bool" where
  "is_job_info (JDict [(k1, b), (k2, JStr l)]) = (k1 = ''basename'' \<and> k2 = ''logical_name'')"
| "is_job_info _ = False"

text \<open>The outcomes of the active-jobs request that the client reports as a failure.\<close>

fun fetch_failed :: "response \<Rightarrow> bool" where
  "fetch_failed RequestException = True"
| "fetch_failed JSONDecodeError = True"
| "fetch_failed (Body j) = (\<not> is_list j)"

text \<open>
  The outcomes of the sources request for which \<^verbatim>\<open>is_dvr_recording\<close> logs an error: no
  answer, an answer that does not decode, a payload that is not a list, a list too short
  for the source id.
\<close>

fun sources_failed :: "int \<Rightarrow> response \<Rightarrow> bool" where
  "sources_failed i RequestException = True"
| "sources_failed i JSONDecodeError = True"
| "sources_failed i (Body (JList sources)) = (\<not> (0 \<le> i \<and> i < int (length sources)))"
| "sources_failed i (Body _) = True"

text \<open>The state-file contents that \<^verbatim>\<open>load_state\<close> reports as an error.\<close>

fun malformed :: "state_file_content \<Rightarrow> bool" where
  "malformed NoFile = False"
| "malformed Unreadable = True"
| "malformed Undecodable = True"
| "malformed (Doc j) = (\<not> is_dict j)"

text \<open>
  The stop calls of a cycle as the specification words them: one call of stop-recording
  for each key, with the basename and the logical name stored under that key.
\<close>

definition stored_names :: "jobs \<Rightarrow> job_key \<Rightarrow> json \<times> json" where
  "stored_names previous key =
     (case map_of previous key of
        Some (JDict [(k1, b), (k2, l)]) \<Rightarrow> (b, l)
      | _ \<Rightarrow> (JNull, JNull))"

fun stop_each :: "env \<Rightarrow> (json \<times> json) list \<Rightarrow> monitor \<Rightarrow> (py_error + unit) \<times> monitor" where
  "stop_each env [] st = (Inr (), st)"
| "stop_each env ((basename, logical_name) # rest) st =
     (case stop_secondary_recording env basename logical_name st of
        (Inl e, st1) \<Rightarrow> (Inl e, st1)
      | (Inr u, st1) \<Rightarrow> stop_each env rest st1)"

text \<open>
  What the requests and the log leave alone: the stored job set, the state file and
  the two facts about the disk.
\<close>

definition io_only :: "monitor \<Rightarrow> monitor \<Rightarrow> bool" where
  "io_only st st' =
     (previous_active_jobs st' = previous_active_jobs st \<and> state_file st' = state_file st \<and>
      makedirs_ok st' = makedirs_ok st \<and> open_write_ok st' = open_write_ok st)"

text \<open>The string a well-formed key is saved under.\<close>

definition key_string :: "job_key \<Rightarrow> string" where
  "key_string k = (case join_key k of Inl e \<Rightarrow> [] | Inr s \<Rightarrow> s)"

section \<open>Concrete systems and states\<close>

text \<open>
  A recorder that does what it is told: a source records from its last start request
  to its next stop request.
\<close>

fun recording :: "call list \<Rightarrow> int \<Rightarrow> bool" where
  "recording [] n = False"
| "recording (c # cs) n =
     (if last (c # cs) = GetRecord n then True
      else if last (c # cs) = GetStop n then False
      else recording (butlast (c # cs)) n)"

text \<open>
  A site: the primary system gives one fixed answer to the active-jobs request and one
  to every file-listing request; the recorder has four sources and is either up or out
  of reach.
\<close>

definition site :: "response \<Rightarrow> response \<Rightarrow> bool \<Rightarrow> env" where
  "site active files recorder_up history c =
     (case c of
        GetActiveJobsInfo \<Rightarrow> active
      | GetFiles i j \<Rightarrow> files
      | GetSources \<Rightarrow>
          if recorder_up then
            Body (JList (map (\<lambda>n. JDict [(''is_recording'', JBool (recording history n))])
                          [0, 1, 2, 3]))
          else RequestException
      | _ \<Rightarrow> if recorder_up then Body JNull else RequestException)"

definition pcr1 :: string where
  "pcr1 = ''9C64992CFF3A4A3FA3C635BB7D9B6071''"

definition one_job :: "string \<Rightarrow> string \<Rightarrow> response" where
  "one_job ingest_id job_id =
     Body (JList [JDict [(''ingestId'', JStr ingest_id),
                         (''activeJobsInfo'', JList [JDict [(''id'', JStr job_id)]])]])"

definition listing :: response where
  "listing =
     Body (JDict [(''data'',
             JList [JDict [(''presetTag'', JStr ''Proxy''), (''fileName'', JStr ''show_20240101_lo.mp4'')],
                    JDict [(''presetTag'', JStr ''Primary''), (''fileName'', JStr ''show_20240101.mp4'')]])])"

text \<open>The monitor at its first start, with no state file.\<close>

definition fresh :: monitor where
  "fresh = \<lparr>previous_active_jobs = [], state_file = NoFile, makedirs_ok = True,
            open_write_ok = True, trace = [], log = []\<rparr>"

text \<open>
  The monitor after one cycle at the site \<open>site (one_job pcr1 ''J1'') listing True\<close>:
  job J1 is stored and saved, source 0 has been started.
\<close>

definition running :: monitor where
  "running =
     \<lparr>previous_active_jobs =
        [([JStr pcr1, JStr ''J1''], job_info (JStr ''show_20240101'') ''PCR 1'')],
      state_file =
        Doc (JDict [(pcr1 @ ''|J1'', job_info (JStr ''show_20240101'') ''PCR 1'')]),
      makedirs_ok = True, open_write_ok = True,
      trace = [GetActiveJobsInfo, GetFiles (JStr pcr1) (JStr ''J1''), GetSources,
               PutRecordingName 0 (JStr ''show_20240101''), GetRecord 0],
      log = [(INFO, ''Set recording name to {basename} for {logical_name}'',
              [JStr ''show_20240101'', JStr ''PCR 1'']),
             (INFO, ''Started DVR recording for {logical_name}'', [JStr ''PCR 1''])]\<rparr>"

text \<open>
  An entry of the job set as the two loops of a cycle build it: the key is the pair of
  ingest id and job id, the value holds a basename and the logical name of the ingest.
\<close>

fun built_entry :: "job_key \<times> json \<Rightarrow> bool" where
  "built_entry ([i, j], JDict [(k1, b), (k2, JStr n)]) =
     (k1 = ''basename'' \<and> k2 = ''logical_name'' \<and> logical_name_of i = Inr n)"
| "built_entry _ = False"

definition cycle_built :: "jobs \<Rightarrow> bool" where
  "cycle_built current = (distinct (map fst current) \<and> list_all built_entry current)"

text \<open>
  A recorder whose sources list has an entry that is not an object: the entry of
  source 0 is a bare boolean.
\<close>

definition bare_sources :: env where
  "bare_sources history c =
     (case c of
        GetSources \<Rightarrow> Body (JList [JBool True, JDict [(''is_recording'', JBool False)]])
      | _ \<Rightarrow> Body JNull)"

text \<open>A job key made of two strings, whatever their characters.\<close>

fun string_pair :: "job_key \<Rightarrow> bool" where
  "string_pair [JStr a, JStr b] = True"
| "string_pair _ = False"

section \<open>Strings\<close>

lemma rsplit1_no_sep: "sep \<notin> set s \<Longrightarrow> rsplit1 sep s = [s]"
proof -
  assume a: "sep \<notin> set s"
  then have d: "dropWhile (\<lambda>c. c \<noteq> sep) (rev s) = []" by auto
  show ?thesis unfolding rsplit1_def Let_def d by simp
qed

lemma rsplit1_last_sep: "sep \<notin> set ext \<Longrightarrow> rsplit1 sep (stem @ sep # ext) = [stem, ext]"
proof -
  assume a: "sep \<notin> set ext"
  have r: "rev (stem @ sep # ext) = rev ext @ sep # rev stem" by simp
  from a have d: "dropWhile (\<lambda>c. c \<noteq> sep) (rev ext @ sep # rev stem) = sep # rev stem"
    by (auto simp: dropWhile_append3)
  from a have t: "takeWhile (\<lambda>c. c \<noteq> sep) (rev ext @ sep # rev stem) = rev ext"
    by (auto simp: takeWhile_tail)
  show ?thesis unfolding rsplit1_def Let_def r d t by simp
qed

lemma split_nonempty: "split sep s \<noteq> []"
  by (induction s) (auto split: list.splits)

lemma split_no_sep: "sep \<notin> set s \<Longrightarrow> split sep s = [s]"
  by (induction s) auto

lemma split_at_sep: "sep \<notin> set a \<Longrightarrow> split sep (a @ sep # b) = a # split sep b"
  by (induction a) (auto split: list.splits)

lemma split_join_pair:
  "sep \<notin> set a \<Longrightarrow> sep \<notin> set b \<Longrightarrow> split sep (join sep [a, b]) = [a, b]"
  by (simp add: split_at_sep split_no_sep)

section \<open>Basename extraction: the scan\<close>

lemma scan_files_skip:
  "\<forall>g \<in> set pre. is_dict g \<and> (primary_tagged g \<longrightarrow> unnamed g) \<Longrightarrow>
   scan_files (pre @ rest) = scan_files rest"
proof (induction pre)
  case Nil
  then show ?case by simp
next
  case (Cons g pre)
  then obtain kvs where g: "g = JDict kvs" by (cases g) auto
  from Cons.prems have "primary_tagged g \<longrightarrow> unnamed g" by simp
  with g Cons show ?case
    by (auto simp: primary_tagged_def unnamed_def split: option.splits)
qed

lemma scan_files_hit:
  assumes "primary_tagged f" "dict_get f ''fileName'' JNull = Inr (JStr n)" "n \<noteq> []"
  shows "scan_files (f # post) = Inr (JStr (hd (rsplit1 CHR ''.'' n)))"
  using assms by (cases f) (auto simp: primary_tagged_def)

lemma scan_files_first_named_primary:
  assumes "\<forall>g \<in> set pre. is_dict g \<and> (primary_tagged g \<longrightarrow> unnamed g)"
    "primary_tagged f" "dict_get f ''fileName'' JNull = Inr (JStr n)" "n \<noteq> []"
  shows "scan_files (pre @ f # post) = Inr (JStr (hd (rsplit1 CHR ''.'' n)))"
  unfolding scan_files_skip[OF assms(1)] by (rule scan_files_hit[OF assms(2-4)])

lemma scan_files_none:
  assumes "\<forall>g \<in> set entries. is_dict g \<and> (primary_tagged g \<longrightarrow> unnamed g)"
  shows "scan_files entries = Inr JNull"
  using scan_files_skip[OF assms, of "[]"] by simp

section \<open>Requests and logging leave the store alone\<close>

lemma io_only_refl: "io_only st st"
  by (simp add: io_only_def)

lemma io_only_trans: "io_only a b \<Longrightarrow> io_only b c \<Longrightarrow> io_only a c"
  by (simp add: io_only_def)

lemma io_only_logging: "io_only st (logging lvl msg args st)"
  by (simp add: io_only_def logging_def)

lemma io_only_request: "request env c st = (r, st') \<Longrightarrow> io_only st st'"
  by (auto simp: io_only_def request_def)

lemma io_only_get_active_jobs_info: "get_active_jobs_info env st = (r, st') \<Longrightarrow> io_only st st'"
  by (auto simp: get_active_jobs_info_def request_def io_only_def logging_def
      split: response.splits json.splits)

lemma io_only_get_files_info: "get_files_info env i j st = (r, st') \<Longrightarrow> io_only st st'"
  by (auto simp: get_files_info_def request_def io_only_def logging_def
      split: response.splits json.splits)

lemma io_only_extract_basename: "extract_basename env i j st = (r, st') \<Longrightarrow> io_only st st'"
  by (auto simp: extract_basename_def split: prod.splits dest: io_only_get_files_info)

lemma io_only_is_dvr_recording: "is_dvr_recording env i st = (r, st') \<Longrightarrow> io_only st st'"
  by (auto simp: is_dvr_recording_def request_def io_only_def logging_def
      split: response.splits json.splits if_splits)

lemma io_only_start: "start_secondary_recording env b l st = (r, st') \<Longrightarrow> io_only st st'"
  unfolding start_secondary_recording_def
  by (auto simp: request_def logging_def io_only_refl
      split: response.splits sum.splits option.splits prod.splits if_splits
      dest!: io_only_is_dvr_recording) (auto simp: io_only_def)

lemma io_only_stop: "stop_secondary_recording env b l st = (r, st') \<Longrightarrow> io_only st st'"
  unfolding stop_secondary_recording_def
  by (auto simp: request_def logging_def io_only_refl
      split: response.splits sum.splits option.splits prod.splits if_splits
      dest!: io_only_is_dvr_recording) (auto simp: io_only_def)

lemma io_only_process_jobs:
  "process_jobs env i l js cur st = (r, st') \<Longrightarrow> io_only st st'"
proof (induction js arbitrary: cur st)
  case Nil
  then show ?case by (simp add: io_only_refl)
next
  case (Cons j js)
  from Cons.prems show ?case
    by (auto simp: io_only_refl split: sum.splits prod.splits if_splits
        dest!: io_only_extract_basename Cons.IH intro: io_only_trans)
qed

lemma io_only_process_ingests:
  "process_ingests env xs cur st = (r, st') \<Longrightarrow> io_only st st'"
proof (induction xs arbitrary: cur st)
  case Nil
  then show ?case by (simp add: io_only_refl)
next
  case (Cons x xs)
  from Cons.prems show ?case
    by (auto simp: io_only_refl split: sum.splits prod.splits if_splits
        dest!: io_only_process_jobs Cons.IH intro: io_only_trans)
qed

lemma io_only_start_new_jobs:
  "start_new_jobs env cur ks st = (r, st') \<Longrightarrow> io_only st st'"
proof (induction ks arbitrary: st)
  case Nil
  then show ?case by (simp add: io_only_refl)
next
  case (Cons k ks)
  from Cons.prems show ?case
    by (auto simp: io_only_refl split: sum.splits prod.splits if_splits option.splits
        dest!: io_only_start Cons.IH intro: io_only_trans)
qed

lemma io_only_stop_stopped_jobs:
  "stop_stopped_jobs env prev ks st = (r, st') \<Longrightarrow> io_only st st'"
proof (induction ks arbitrary: st)
  case Nil
  then show ?case by (simp add: io_only_refl)
next
  case (Cons k ks)
  from Cons.prems show ?case
    by (auto simp: io_only_refl split: sum.splits prod.splits if_splits option.splits
        dest!: io_only_stop Cons.IH intro: io_only_trans)
qed

lemma io_only_fetch: "fetch_current_active_jobs env st = (r, st') \<Longrightarrow> io_only st st'"
  by (auto simp: fetch_current_active_jobs_def split: prod.splits
      dest!: io_only_get_active_jobs_info io_only_process_ingests intro: io_only_trans)

section \<open>Evaluation at concrete inputs\<close>

lemmas eval_defs =
  process_polling_cycle_def fetch_current_active_jobs_def get_active_jobs_info_def
  request_def site_def one_job_def listing_def
  fresh_def running_def extract_basename_def get_files_info_def extract_primary_file_basename_def
  rsplit1_def logical_name_of_def ingest_id_map_def pcr1_def job_info_def
  new_jobs_def stopped_jobs_def start_secondary_recording_def stop_secondary_recording_def
  logical_name_to_dvr_source_id_def
  is_dvr_recording_def logging_def save_state_def join_key_def

text \<open>The state \<open>running\<close> is the state after the first cycle of a fresh monitor.\<close>

lemma first_cycle:
  "process_polling_cycle (site (one_job pcr1 ''J1'') listing True) fresh = (Inr (), running)"
  by (simp add: eval_defs)

section \<open>The set algebra of a cycle\<close>

lemma previous_save_state: "previous_active_jobs (save_state st) = previous_active_jobs st"
  by (simp add: save_state_def logging_def split: sum.splits)

lemma cycle_stores_current:
  assumes "fetch_current_active_jobs env st = (Inr current, st1)"
    and "process_polling_cycle env st = (Inr (), st')"
  shows "previous_active_jobs st' = current"
  using assms
  by (auto simp: process_polling_cycle_def previous_save_state split: sum.splits prod.splits)

text \<open>
  Claim C2. In a cycle that runs to its end, with \<open>current\<close> the job set built from the
  fetch and \<open>previous\<close> the stored one, the new jobs are the keys of \<open>current\<close> that are
  not keys of \<open>previous\<close> and the stopped jobs the keys of \<open>previous\<close> that are not keys
  of \<open>current\<close>; no key is in both; and the key set stored after the cycle is the previous
  key set, with the new keys added and the stopped keys removed, which is the current
  key set. The job set the differences are taken against is the one stored before the
  cycle: the fetch does not change it.
\<close>

theorem cycle_set_algebra:
  assumes "fetch_current_active_jobs env st = (Inr current, st1)"
    and "process_polling_cycle env st = (Inr (), st')"
  shows "previous_active_jobs st1 = previous_active_jobs st \<and>
    set (new_jobs current (previous_active_jobs st)) =
      set (map fst current) - set (map fst (previous_active_jobs st)) \<and>
    set (stopped_jobs current (previous_active_jobs st)) =
      set (map fst (previous_active_jobs st)) - set (map fst current) \<and>
    set (new_jobs current (previous_active_jobs st)) \<inter>
      set (stopped_jobs current (previous_active_jobs st)) = {} \<and>
    set (map fst (previous_active_jobs st')) =
      set (map fst (previous_active_jobs st)) \<union> set (new_jobs current (previous_active_jobs st))
        - set (stopped_jobs current (previous_active_jobs st)) \<and>
    set (map fst (previous_active_jobs st')) = set (map fst current)"
proof -
  have p: "previous_active_jobs st1 = previous_active_jobs st"
    using io_only_fetch[OF assms(1)] by (simp add: io_only_def)
  have s: "previous_active_jobs st' = current"
    using assms by (rule cycle_stores_current)
  have n: "set (new_jobs current (previous_active_jobs st)) =
      set (map fst current) - set (map fst (previous_active_jobs st))"
    by (auto simp: new_jobs_def)
  have d: "set (stopped_jobs current (previous_active_jobs st)) =
      set (map fst (previous_active_jobs st)) - set (map fst current)"
    by (auto simp: stopped_jobs_def)
  show ?thesis unfolding n d s using p by blast
qed

lemma next_job_fetch:
  "fetch_current_active_jobs (site (one_job pcr1 ''J2'') listing True) running =
     (Inr [([JStr pcr1, JStr ''J2''], job_info (JStr ''show_20240101'') ''PCR 1'')],
      snd (fetch_current_active_jobs (site (one_job pcr1 ''J2'') listing True) running))"
  by (simp add: eval_defs)

lemma next_job_cycle:
  "process_polling_cycle (site (one_job pcr1 ''J2'') listing True) running =
     (Inr (), snd (process_polling_cycle (site (one_job pcr1 ''J2'') listing True) running))"
  by (simp add: eval_defs)


theorem cycle_set_algebra_witness:
  "set (new_jobs [([JStr pcr1, JStr ''J2''], job_info (JStr ''show_20240101'') ''PCR 1'')]
          (previous_active_jobs running)) = {[JStr pcr1, JStr ''J2'']} \<and>
   set (stopped_jobs [([JStr pcr1, JStr ''J2''], job_info (JStr ''show_20240101'') ''PCR 1'')]
          (previous_active_jobs running)) = {[JStr pcr1, JStr ''J1'']} \<and>
   set (map fst (previous_active_jobs
          (snd (process_polling_cycle (site (one_job pcr1 ''J2'') listing True) running)))) =
     {[JStr pcr1, JStr ''J2'']}"
proof -
  have "set (map fst (previous_active_jobs
          (snd (process_polling_cycle (site (one_job pcr1 ''J2'') listing True) running)))) =
     set (map fst [([JStr pcr1, JStr ''J2''], job_info (JStr ''show_20240101'') ''PCR 1'')])"
    using cycle_set_algebra[OF next_job_fetch next_job_cycle] by blast
  then show ?thesis
    by (simp add: running_def new_jobs_def stopped_jobs_def)
qed

section \<open>State store: saving and loading\<close>

lemma dict_set_new: "k \<notin> fst ` set acc \<Longrightarrow> dict_set k v acc = acc @ [(k, v)]"
  by (induction acc) auto

lemma ident_pair_cases:
  assumes "ident_pair k"
  obtains a b where "k = [JStr a, JStr b]" "CHR ''|'' \<notin> set a" "CHR ''|'' \<notin> set b"
  using assms by (cases k rule: ident_pair.cases) auto

lemma join_key_ident_pair:
  "CHR ''|'' \<notin> set a \<Longrightarrow> CHR ''|'' \<notin> set b \<Longrightarrow> join_key [JStr a, JStr b] = Inr (a @ CHR ''|'' # b)"
  by (simp add: join_key_def)

lemma join_key_Inr: "ident_pair k \<Longrightarrow> join_key k = Inr (key_string k)"
  by (erule ident_pair_cases) (simp add: key_string_def join_key_def)

lemma split_key_string: "ident_pair k \<Longrightarrow> map JStr (split CHR ''|'' (key_string k)) = k"
  by (erule ident_pair_cases) (simp add: key_string_def join_key_def split_at_sep split_no_sep)

lemma key_string_inj: "ident_pair k \<Longrightarrow> ident_pair k' \<Longrightarrow> key_string k = key_string k' \<Longrightarrow> k = k'"
  by (metis split_key_string)

lemma state_to_data_ident:
  assumes "\<forall>k \<in> set (map fst S). ident_pair k" "distinct (map fst S)"
    "\<forall>k \<in> set (map fst S). key_string k \<notin> fst ` set acc"
  shows "state_to_data S acc = Inr (acc @ map (\<lambda>(k, v). (key_string k, v)) S)"
  using assms
proof (induction S arbitrary: acc)
  case Nil
  then show ?case by simp
next
  case (Cons kv S)
  obtain k v where kv: "kv = (k, v)" by (cases kv)
  from Cons.prems kv have ik: "ident_pair k" and fresh: "key_string k \<notin> fst ` set acc" by auto
  have inj: "\<forall>k' \<in> set (map fst S). key_string k' \<noteq> key_string k"
    using Cons.prems kv ik by (auto dest: key_string_inj)
  have "\<forall>k' \<in> set (map fst S). key_string k' \<notin> fst ` set (acc @ [(key_string k, v)])"
    using Cons.prems inj by auto
  with Cons.IH[of "acc @ [(key_string k, v)]"] Cons.prems
  have "state_to_data S (acc @ [(key_string k, v)]) =
        Inr ((acc @ [(key_string k, v)]) @ map (\<lambda>(k, v). (key_string k, v)) S)" by simp
  then show ?case
    using kv by (simp add: join_key_Inr[OF ik] dict_set_new[OF fresh])
qed

lemma data_to_state_ident:
  assumes "\<forall>k \<in> set (map fst S). ident_pair k" "distinct (map fst S)"
    "\<forall>k \<in> set (map fst S). k \<notin> fst ` set acc"
  shows "data_to_state (map (\<lambda>(k, v). (key_string k, v)) S) acc = acc @ S"
  using assms
proof (induction S arbitrary: acc)
  case Nil
  then show ?case by simp
next
  case (Cons kv S)
  obtain k v where kv: "kv = (k, v)" by (cases kv)
  from Cons.prems kv have ik: "ident_pair k" and fresh: "k \<notin> fst ` set acc" by auto
  have "\<forall>k' \<in> set (map fst S). k' \<notin> fst ` set (acc @ [(k, v)])"
    using Cons.prems kv by auto
  with Cons.IH[of "acc @ [(k, v)]"] Cons.prems
  have "data_to_state (map (\<lambda>(k, v). (key_string k, v)) S) (acc @ [(k, v)]) = (acc @ [(k, v)]) @ S"
    by simp
  then show ?case
    using kv by (simp add: split_key_string[OF ik] dict_set_new[OF fresh])
qed

text \<open>
  Claim C3. For a job set whose keys are pairs of identifier strings without the
  separator \<open>|\<close> (a dict, so its keys are distinct), a save that reaches the disk writes
  the set under the joined keys, and a load of the file that the save wrote gives the
  same job set back, values and order included, whatever the loading monitor held
  before (a monitor after a restart holds nothing of the saved set). The empty job set
  is one such set.
\<close>

theorem save_load_roundtrip:
  assumes "\<forall>k \<in> set (map fst S). ident_pair k" and "distinct (map fst S)"
    and "previous_active_jobs st = S" and "makedirs_ok st" and "open_write_ok st"
  shows "state_file (save_state st) = Doc (JDict (map (\<lambda>(k, v). (key_string k, v)) S)) \<and>
         previous_active_jobs
           (load_state (other\<lparr>state_file := state_file (save_state st)\<rparr>)) = S"
proof -
  have d: "state_to_data S [] = Inr (map (\<lambda>(k, v). (key_string k, v)) S)"
    using state_to_data_ident[OF assms(1,2), of "[]"] by simp
  have f: "state_file (save_state st) = Doc (JDict (map (\<lambda>(k, v). (key_string k, v)) S))"
    using assms(3-5) d by (simp add: save_state_def)
  have l: "data_to_state (map (\<lambda>(k, v). (key_string k, v)) S) [] = S"
    using data_to_state_ident[OF assms(1,2), of "[]"] by simp
  show ?thesis using f l by (simp add: load_state_def logging_def)
qed

theorem save_load_roundtrip_witness:
  "previous_active_jobs
     (load_state (fresh\<lparr>state_file := state_file (save_state (running\<lparr>previous_active_jobs :=
        [([JStr ''ingest-A'', JStr ''job_1''], job_info (JStr ''show'') ''PCR 1''),
         ([JStr ''ingest-A'', JStr ''job_2''], job_info (JStr ''news.v2'') ''PCR 1''),
         ([JStr [], JStr ''job_1''], job_info (JStr ''x'') ''Unknown Ingest'')]\<rparr>))\<rparr>))
   = [([JStr ''ingest-A'', JStr ''job_1''], job_info (JStr ''show'') ''PCR 1''),
      ([JStr ''ingest-A'', JStr ''job_2''], job_info (JStr ''news.v2'') ''PCR 1''),
      ([JStr [], JStr ''job_1''], job_info (JStr ''x'') ''Unknown Ingest'')] \<and>
   previous_active_jobs
     (load_state (running\<lparr>state_file :=
        state_file (save_state (running\<lparr>previous_active_jobs := []\<rparr>))\<rparr>)) = []"
proof -
  define S where "S =
     [([JStr ''ingest-A'', JStr ''job_1''], job_info (JStr ''show'') ''PCR 1''),
      ([JStr ''ingest-A'', JStr ''job_2''], job_info (JStr ''news.v2'') ''PCR 1''),
      ([JStr [], JStr ''job_1''], job_info (JStr ''x'') ''Unknown Ingest'')]"
  have k: "\<forall>k \<in> set (map fst S). ident_pair k" by (simp add: S_def)
  have d: "distinct (map fst S)" by (simp add: S_def)
  have p: "previous_active_jobs (running\<lparr>previous_active_jobs := S\<rparr>) = S" by simp
  have m: "makedirs_ok (running\<lparr>previous_active_jobs := S\<rparr>)"
    and w: "open_write_ok (running\<lparr>previous_active_jobs := S\<rparr>)"
    by (simp_all add: running_def)
  have a: "previous_active_jobs
      (load_state (fresh\<lparr>state_file :=
         state_file (save_state (running\<lparr>previous_active_jobs := S\<rparr>))\<rparr>)) = S"
    using save_load_roundtrip[OF k d p m w, of fresh] by blast
  have k0: "\<forall>k \<in> set (map fst ([] :: jobs)). ident_pair k" by simp
  have d0: "distinct (map fst ([] :: jobs))" by simp
  have p0: "previous_active_jobs (running\<lparr>previous_active_jobs := []\<rparr>) = []" by simp
  have m0: "makedirs_ok (running\<lparr>previous_active_jobs := []\<rparr>)"
    and w0: "open_write_ok (running\<lparr>previous_active_jobs := []\<rparr>)"
    by (simp_all add: running_def)
  have b: "previous_active_jobs
      (load_state (running\<lparr>state_file :=
         state_file (save_state (running\<lparr>previous_active_jobs := []\<rparr>))\<rparr>)) = []"
    using save_load_roundtrip[OF k0 d0 p0 m0 w0, of running] by blast
  from a b show ?thesis unfolding S_def by blast
qed

section \<open>Basename extraction in the cycle\<close>

lemma extract_basename_listing:
  assumes "env (trace st) (GetFiles ingest_id job_id) = Body (JDict d)"
  shows "extract_basename env ingest_id job_id st =
           (extract_primary_file_basename (JDict d),
            st\<lparr>trace := trace st @ [GetFiles ingest_id job_id]\<rparr>)"
  using assms by (simp add: extract_basename_def get_files_info_def request_def)

text \<open>
  Claim C5. When the entries of a job's file listing before entry \<open>f\<close> are not tagged
  as primary and \<open>f\<close> is, with a file name \<open>n\<close> that is a non-empty string, basename
  extraction returns \<open>n\<close> cut at its last dot: the part before the last dot when there is
  one, the whole name when there is none. When no entry of the listing is tagged as
  primary the result is \<^verbatim>\<open>None\<close>, and the loop over the jobs goes on to the next job
  with the job set unchanged and no error: the job is left out.
\<close>

theorem primary_basename:
  "(dict_get files_info ''data'' (JList []) = Inr (JList (pre @ f # post)) \<and>
    (\<forall>g \<in> set pre. is_dict g \<and> \<not> primary_tagged g) \<and>
    primary_tagged f \<and> dict_get f ''fileName'' JNull = Inr (JStr n) \<and> n \<noteq> [] \<longrightarrow>
      extract_primary_file_basename files_info = Inr (JStr (hd (rsplit1 CHR ''.'' n)))) \<and>
   (CHR ''.'' \<notin> set ext \<longrightarrow> hd (rsplit1 CHR ''.'' (stem @ CHR ''.'' # ext)) = stem) \<and>
   (CHR ''.'' \<notin> set whole \<longrightarrow> hd (rsplit1 CHR ''.'' whole) = whole) \<and>
   (dict_get other_info ''data'' (JList []) = Inr (JList entries) \<and>
    (\<forall>g \<in> set entries. is_dict g \<and> \<not> primary_tagged g) \<longrightarrow>
      extract_primary_file_basename other_info = Inr JNull) \<and>
   (dict_get job ''id'' JNull = Inr job_id \<and>
    env (trace st) (GetFiles ingest_id job_id) = Body (JDict d) \<and>
    extract_primary_file_basename (JDict d) = Inr JNull \<longrightarrow>
      process_jobs env ingest_id logical_name (job # rest) current st =
      process_jobs env ingest_id logical_name rest current
        (st\<lparr>trace := trace st @ [GetFiles ingest_id job_id]\<rparr>))"
proof (intro conjI impI)
  assume a: "dict_get files_info ''data'' (JList []) = Inr (JList (pre @ f # post)) \<and>
    (\<forall>g \<in> set pre. is_dict g \<and> \<not> primary_tagged g) \<and>
    primary_tagged f \<and> dict_get f ''fileName'' JNull = Inr (JStr n) \<and> n \<noteq> []"
  then have "scan_files (pre @ f # post) = Inr (JStr (hd (rsplit1 CHR ''.'' n)))"
    by (intro scan_files_first_named_primary) auto
  with a show "extract_primary_file_basename files_info = Inr (JStr (hd (rsplit1 CHR ''.'' n)))"
    by (simp add: extract_primary_file_basename_def)
next
  assume "CHR ''.'' \<notin> set ext"
  then show "hd (rsplit1 CHR ''.'' (stem @ CHR ''.'' # ext)) = stem"
    by (simp add: rsplit1_last_sep)
next
  assume "CHR ''.'' \<notin> set whole"
  then show "hd (rsplit1 CHR ''.'' whole) = whole"
    by (simp add: rsplit1_no_sep)
next
  assume a: "dict_get other_info ''data'' (JList []) = Inr (JList entries) \<and>
    (\<forall>g \<in> set entries. is_dict g \<and> \<not> primary_tagged g)"
  then have "scan_files entries = Inr JNull"
    by (intro scan_files_none) auto
  with a show "extract_primary_file_basename other_info = Inr JNull"
    by (simp add: extract_primary_file_basename_def)
next
  assume a: "dict_get job ''id'' JNull = Inr job_id \<and>
    env (trace st) (GetFiles ingest_id job_id) = Body (JDict d) \<and>
    extract_primary_file_basename (JDict d) = Inr JNull"
  then have "extract_basename env ingest_id job_id st =
      (Inr JNull, st\<lparr>trace := trace st @ [GetFiles ingest_id job_id]\<rparr>)"
    by (simp add: extract_basename_listing)
  with a show "process_jobs env ingest_id logical_name (job # rest) current st =
      process_jobs env ingest_id logical_name rest current
        (st\<lparr>trace := trace st @ [GetFiles ingest_id job_id]\<rparr>)"
    by simp
qed

theorem primary_basename_witness:
  "extract_primary_file_basename
     (JDict [(''data'',
        JList [JDict [(''presetTag'', JStr ''Proxy''), (''fileName'', JStr ''show_lo.mp4'')],
               JDict [(''presetTag'', JStr ''Primary''), (''fileName'', JStr ''show_20240101.mp4'')]])])
     = Inr (JStr ''show_20240101'') \<and>
   hd (rsplit1 CHR ''.'' ''a.b.mp4'') = ''a.b'' \<and>
   hd (rsplit1 CHR ''.'' ''README'') = ''README'' \<and>
   extract_primary_file_basename
     (JDict [(''data'',
        JList [JDict [(''presetTag'', JStr ''Proxy''), (''fileName'', JStr ''show_lo.mp4'')]])])
     = Inr JNull \<and>
   process_jobs
     (site (one_job pcr1 ''J1'')
        (Body (JDict [(''data'',
           JList [JDict [(''presetTag'', JStr ''Proxy''), (''fileName'', JStr ''show_lo.mp4'')]])]))
        True)
     (JStr pcr1) ''PCR 1'' [JDict [(''id'', JStr ''J1'')]] [] fresh
     = (Inr [], fresh\<lparr>trace := [GetFiles (JStr pcr1) (JStr ''J1'')]\<rparr>)"
  using primary_basename[where
      files_info = "JDict [(''data'',
        JList [JDict [(''presetTag'', JStr ''Proxy''), (''fileName'', JStr ''show_lo.mp4'')],
               JDict [(''presetTag'', JStr ''Primary''), (''fileName'', JStr ''show_20240101.mp4'')]])]"
      and pre = "[JDict [(''presetTag'', JStr ''Proxy''), (''fileName'', JStr ''show_lo.mp4'')]]"
      and f = "JDict [(''presetTag'', JStr ''Primary''), (''fileName'', JStr ''show_20240101.mp4'')]"
      and post = "[]" and n = "''show_20240101.mp4''"
      and ext = "''mp4''" and stem = "''a.b''" and whole = "''README''"
      and other_info = "JDict [(''data'',
        JList [JDict [(''presetTag'', JStr ''Proxy''), (''fileName'', JStr ''show_lo.mp4'')]])]"
      and entries = "[JDict [(''presetTag'', JStr ''Proxy''), (''fileName'', JStr ''show_lo.mp4'')]]"
      and job = "JDict [(''id'', JStr ''J1'')]" and job_id = "JStr ''J1''"
      and env = "site (one_job pcr1 ''J1'')
        (Body (JDict [(''data'',
           JList [JDict [(''presetTag'', JStr ''Proxy''), (''fileName'', JStr ''show_lo.mp4'')]])]))
        True"
      and st = fresh and ingest_id = "JStr pcr1"
      and d = "[(''data'',
           JList [JDict [(''presetTag'', JStr ''Proxy''), (''fileName'', JStr ''show_lo.mp4'')]])]"
      and logical_name = "''PCR 1''" and rest = "[]" and current = "[]"]
  by (simp add: primary_tagged_def rsplit1_def site_def fresh_def
      extract_primary_file_basename_def)

text \<open>
  Claim C10. When several entries of a listing are tagged as primary, basename
  extraction returns the basename of the first one, in list order, whose file name is a
  non-empty string; entries tagged as primary whose file name is missing, null or empty
  are passed over, as are the entries without the tag.
\<close>

theorem first_named_primary:
  assumes "dict_get files_info ''data'' (JList []) = Inr (JList (pre @ f # post))"
    and "\<forall>g \<in> set pre. is_dict g \<and> (primary_tagged g \<longrightarrow> unnamed g)"
    and "primary_tagged f" and "dict_get f ''fileName'' JNull = Inr (JStr n)" and "n \<noteq> []"
  shows "extract_primary_file_basename files_info = Inr (JStr (hd (rsplit1 CHR ''.'' n)))"
  using assms(1) scan_files_first_named_primary[OF assms(2-5)]
  by (simp add: extract_primary_file_basename_def)

theorem first_named_primary_witness:
  "extract_primary_file_basename
     (JDict [(''data'',
        JList [JDict [(''presetTag'', JStr ''Proxy''), (''fileName'', JStr ''lo.mp4'')],
               JDict [(''presetTag'', JStr ''Primary'')],
               JDict [(''presetTag'', JStr ''Primary''), (''fileName'', JStr '''')],
               JDict [(''presetTag'', JStr ''Primary''), (''fileName'', JStr ''first.take.mxf'')],
               JDict [(''presetTag'', JStr ''Primary''), (''fileName'', JStr ''second.mxf'')]])])
   = Inr (JStr ''first.take'')"
  using first_named_primary[of
      "JDict [(''data'',
        JList [JDict [(''presetTag'', JStr ''Proxy''), (''fileName'', JStr ''lo.mp4'')],
               JDict [(''presetTag'', JStr ''Primary'')],
               JDict [(''presetTag'', JStr ''Primary''), (''fileName'', JStr '''')],
               JDict [(''presetTag'', JStr ''Primary''), (''fileName'', JStr ''first.take.mxf'')],
               JDict [(''presetTag'', JStr ''Primary''), (''fileName'', JStr ''second.mxf'')]])]"
      "[JDict [(''presetTag'', JStr ''Proxy''), (''fileName'', JStr ''lo.mp4'')],
        JDict [(''presetTag'', JStr ''Primary'')],
        JDict [(''presetTag'', JStr ''Primary''), (''fileName'', JStr '''')]]"
      "JDict [(''presetTag'', JStr ''Primary''), (''fileName'', JStr ''first.take.mxf'')]"
      "[JDict [(''presetTag'', JStr ''Primary''), (''fileName'', JStr ''second.mxf'')]]"
      "''first.take.mxf''"]
  by (simp add: primary_tagged_def unnamed_def rsplit1_def)

section \<open>A failed fetch\<close>

lemma failed_fetch_returns_empty:
  assumes "fetch_failed (env (trace st) GetActiveJobsInfo)"
  shows "\<exists>m. get_active_jobs_info env st =
           ([], logging ERROR m [] (st\<lparr>trace := trace st @ [GetActiveJobsInfo]\<rparr>))"
  using assms
  by (cases "env (trace st) GetActiveJobsInfo")
     (auto simp: get_active_jobs_info_def request_def split: json.splits)

lemma stopped_jobs_empty_current: "stopped_jobs [] previous = map fst previous"
  by (simp add: stopped_jobs_def)

lemma new_jobs_empty_current: "new_jobs [] previous = []"
  by (simp add: new_jobs_def)

text \<open>
  Claim C1, as amended. When the request for the active jobs fails (no answer, a body
  that does not decode, or a payload that is not a list), \<^verbatim>\<open>get_active_jobs_info\<close> logs
  one error and returns the empty list, and the cycle goes on as it does for an empty
  active-job set: no job is new, every stored key is a stopped job and the stop loop
  runs over all of them, and when the cycle runs to its end the stored job set is empty,
  the status surface shows the empty mapping and, when the save reaches the disk, the
  state file holds the empty mapping.
\<close>

theorem failed_fetch_as_empty:
  assumes "fetch_failed (env (trace st) GetActiveJobsInfo)"
  shows "fst (get_active_jobs_info env st) = [] \<and>
    (\<exists>m. snd (get_active_jobs_info env st) =
           logging ERROR m [] (st\<lparr>trace := trace st @ [GetActiveJobsInfo]\<rparr>)) \<and>
    fetch_current_active_jobs env st = (Inr [], snd (get_active_jobs_info env st)) \<and>
    new_jobs [] (previous_active_jobs st) = [] \<and>
    stopped_jobs [] (previous_active_jobs st) = map fst (previous_active_jobs st) \<and>
    process_polling_cycle env st =
      (case stop_stopped_jobs env (previous_active_jobs st) (map fst (previous_active_jobs st))
              (snd (get_active_jobs_info env st)) of
         (Inl e, st3) \<Rightarrow> (Inl e, st3)
       | (Inr u, st3) \<Rightarrow> (Inr (), save_state (st3\<lparr>previous_active_jobs := []\<rparr>))) \<and>
    (process_polling_cycle env st = (Inr (), st') \<longrightarrow>
       previous_active_jobs st' = [] \<and> get_current_status st' = Inr [] \<and>
       (makedirs_ok st \<and> open_write_ok st \<longrightarrow> state_file st' = Doc (JDict [])))"
proof -
  obtain m where g: "get_active_jobs_info env st =
      ([], logging ERROR m [] (st\<lparr>trace := trace st @ [GetActiveJobsInfo]\<rparr>))"
    using failed_fetch_returns_empty[of env st] assms by blast
  define st1 where "st1 = logging ERROR m [] (st\<lparr>trace := trace st @ [GetActiveJobsInfo]\<rparr>)"
  have g1: "get_active_jobs_info env st = ([], st1)" using g st1_def by simp
  have p1: "previous_active_jobs st1 = previous_active_jobs st"
    and m1: "makedirs_ok st1 = makedirs_ok st" and o1: "open_write_ok st1 = open_write_ok st"
    by (simp_all add: st1_def logging_def)
  have f: "fetch_current_active_jobs env st = (Inr [], st1)"
    using g1 by (simp add: fetch_current_active_jobs_def)
  have c: "process_polling_cycle env st =
      (case stop_stopped_jobs env (previous_active_jobs st) (map fst (previous_active_jobs st)) st1 of
         (Inl e, st3) \<Rightarrow> (Inl e, st3)
       | (Inr u, st3) \<Rightarrow> (Inr (), save_state (st3\<lparr>previous_active_jobs := []\<rparr>)))"
    using f p1
    by (simp add: process_polling_cycle_def new_jobs_empty_current stopped_jobs_empty_current)
  have e: "previous_active_jobs st' = [] \<and> get_current_status st' = Inr [] \<and>
       (makedirs_ok st \<and> open_write_ok st \<longrightarrow> state_file st' = Doc (JDict []))"
    if fin: "process_polling_cycle env st = (Inr (), st')"
  proof -
    obtain r st3 where s: "stop_stopped_jobs env (previous_active_jobs st)
        (map fst (previous_active_jobs st)) st1 = (r, st3)" by force
    from fin c s have st': "st' = save_state (st3\<lparr>previous_active_jobs := []\<rparr>)"
      by (auto split: sum.splits)
    have io: "io_only st1 st3" using s by (rule io_only_stop_stopped_jobs)
    have a: "previous_active_jobs st' = []"
      by (simp add: st' previous_save_state)
    have b: "makedirs_ok st \<and> open_write_ok st \<longrightarrow> state_file st' = Doc (JDict [])"
      using io m1 o1 by (simp add: st' save_state_def io_only_def)
    show ?thesis using a b by (simp add: get_current_status_def)
  qed
  show ?thesis
    using g1 f c e st1_def
    by (simp add: new_jobs_empty_current stopped_jobs_empty_current) blast
qed

theorem failed_fetch_as_empty_witness:
  "fetch_failed (site RequestException listing True (trace running) GetActiveJobsInfo) \<and>
   fst (get_active_jobs_info (site RequestException listing True) running) = [] \<and>
   stopped_jobs [] (previous_active_jobs running) = [[JStr pcr1, JStr ''J1'']] \<and>
   previous_active_jobs (snd (process_polling_cycle (site RequestException listing True) running)) = []"
proof -
  have h: "fetch_failed (site RequestException listing True (trace running) GetActiveJobsInfo)"
    by (simp add: site_def)
  have d: "process_polling_cycle (site RequestException listing True) running =
     (Inr (), snd (process_polling_cycle (site RequestException listing True) running))"
    by (simp add: eval_defs)
  note t = failed_fetch_as_empty[of "site RequestException listing True" running
        "snd (process_polling_cycle (site RequestException listing True) running)"]
  from t h have a: "fst (get_active_jobs_info (site RequestException listing True) running) = []"
    by blast
  from t h d have b: "previous_active_jobs
      (snd (process_polling_cycle (site RequestException listing True) running)) = []"
    by blast
  have c: "stopped_jobs [] (previous_active_jobs running) = [[JStr pcr1, JStr ''J1'']]"
    by (simp add: running_def stopped_jobs_def)
  from h a c b show ?thesis by blast
qed

text \<open>
  The claim as the specification words it (a cycle whose fetch fails leaves the stored
  state, the state file and the status surface as they were, and derives no stop) fails
  at the state \<open>running\<close> when the primary system does not answer: the cycle empties all
  three and asks the recorder to stop source 0.
\<close>

theorem failed_fetch_counterexample:
  "fetch_failed (site RequestException listing True (trace running) GetActiveJobsInfo) \<and>
   previous_active_jobs (snd (process_polling_cycle (site RequestException listing True) running))
     \<noteq> previous_active_jobs running \<and>
   state_file (snd (process_polling_cycle (site RequestException listing True) running))
     \<noteq> state_file running \<and>
   get_current_status (snd (process_polling_cycle (site RequestException listing True) running))
     \<noteq> get_current_status running \<and>
   trace (snd (process_polling_cycle (site RequestException listing True) running))
     = trace running @ [GetActiveJobsInfo, GetSources, GetStop 0]"
  by (simp add: eval_defs get_current_status_def)

section \<open>Starting a recording\<close>

lemma trace_logging: "trace (logging lvl msg args st) = trace st"
  by (simp add: logging_def)

lemma trace_is_dvr_recording:
  "is_dvr_recording env i st = (r, st1) \<Longrightarrow> trace st1 = trace st @ [GetSources]"
  by (auto simp: is_dvr_recording_def request_def logging_def
      split: response.splits json.splits if_splits)

lemma start_when_recording:
  assumes "table_get logical_name_to_dvr_source_id l = Inr (Some i)"
    and "is_dvr_recording env i st = (Inr v, st1)" and "truthy v"
  shows "start_secondary_recording env b l st =
           (Inr (), logging INFO ''DVR for {logical_name} is already recording'' [l] st1)"
  using assms by (simp add: start_secondary_recording_def)

lemma start_when_idle:
  assumes "table_get logical_name_to_dvr_source_id l = Inr (Some i)"
    and "is_dvr_recording env i st = (Inr v, st1)" and "\<not> truthy v"
    and "env (trace st1) (PutRecordingName i b) \<noteq> RequestException"
  shows "fst (start_secondary_recording env b l st) = Inr () \<and>
         trace (snd (start_secondary_recording env b l st)) =
           trace st @ [GetSources, PutRecordingName i b, GetRecord i]"
  using assms trace_is_dvr_recording[OF assms(2)]
  by (auto simp: start_secondary_recording_def request_def logging_def split: response.splits)

text \<open>
  Claim C4. When the logical name has a source and the recording check for that source
  returns a true value, start-recording logs that the recorder is already recording and
  returns after the one sources request: no name is set and no start is requested.
  Hence, for two calls in a row where the first finds the source idle and sets the name,
  and the check made by the second reports the source as recording, the two calls
  together make one start request.
\<close>

theorem start_is_idempotent:
  "(table_get logical_name_to_dvr_source_id l = Inr (Some i) \<and>
    is_dvr_recording env i st = (Inr v, st1) \<and> truthy v \<longrightarrow>
      start_secondary_recording env b l st =
        (Inr (), logging INFO ''DVR for {logical_name} is already recording'' [l] st1) \<and>
      trace (snd (start_secondary_recording env b l st)) = trace st @ [GetSources]) \<and>
   (table_get logical_name_to_dvr_source_id l' = Inr (Some i') \<and>
    is_dvr_recording env' i' s = (Inr v1, s1) \<and> \<not> truthy v1 \<and>
    env' (trace s1) (PutRecordingName i' b') \<noteq> RequestException \<and>
    is_dvr_recording env' i' (snd (start_secondary_recording env' b' l' s)) = (Inr v2, s3) \<and>
    truthy v2 \<longrightarrow>
      trace (snd (start_secondary_recording env' b' l'
                    (snd (start_secondary_recording env' b' l' s)))) =
        trace s @ [GetSources, PutRecordingName i' b', GetRecord i', GetSources] \<and>
      length (filter (\<lambda>c. c = GetRecord i')
                (drop (length (trace s))
                   (trace (snd (start_secondary_recording env' b' l'
                                  (snd (start_secondary_recording env' b' l' s))))))) = 1)"
proof (intro conjI impI)
  assume a: "table_get logical_name_to_dvr_source_id l = Inr (Some i) \<and>
    is_dvr_recording env i st = (Inr v, st1) \<and> truthy v"
  then show s: "start_secondary_recording env b l st =
        (Inr (), logging INFO ''DVR for {logical_name} is already recording'' [l] st1)"
    by (simp add: start_when_recording)
  from a have "trace st1 = trace st @ [GetSources]"
    using trace_is_dvr_recording[of env i st "Inr v" st1] by simp
  then show "trace (snd (start_secondary_recording env b l st)) = trace st @ [GetSources]"
    by (simp add: s trace_logging)
next
  assume a: "table_get logical_name_to_dvr_source_id l' = Inr (Some i') \<and>
    is_dvr_recording env' i' s = (Inr v1, s1) \<and> \<not> truthy v1 \<and>
    env' (trace s1) (PutRecordingName i' b') \<noteq> RequestException \<and>
    is_dvr_recording env' i' (snd (start_secondary_recording env' b' l' s)) = (Inr v2, s3) \<and>
    truthy v2"
  define s2 where "s2 = snd (start_secondary_recording env' b' l' s)"
  from a have first: "trace s2 = trace s @ [GetSources, PutRecordingName i' b', GetRecord i']"
    unfolding s2_def using start_when_idle[of l' i' env' s v1 s1 b'] by simp
  from a have chk: "is_dvr_recording env' i' s2 = (Inr v2, s3)" by (simp add: s2_def)
  then have t3: "trace s3 = trace s2 @ [GetSources]" by (rule trace_is_dvr_recording)
  from a chk have "start_secondary_recording env' b' l' s2 =
        (Inr (), logging INFO ''DVR for {logical_name} is already recording'' [l'] s3)"
    by (simp add: start_when_recording)
  then have t: "trace (snd (start_secondary_recording env' b' l' s2)) =
      trace s @ [GetSources, PutRecordingName i' b', GetRecord i', GetSources]"
    by (simp add: trace_logging t3 first)
  show "trace (snd (start_secondary_recording env' b' l'
                    (snd (start_secondary_recording env' b' l' s)))) =
        trace s @ [GetSources, PutRecordingName i' b', GetRecord i', GetSources]"
    using t by (simp add: s2_def)
  show "length (filter (\<lambda>c. c = GetRecord i')
                (drop (length (trace s))
                   (trace (snd (start_secondary_recording env' b' l'
                                  (snd (start_secondary_recording env' b' l' s))))))) = 1"
    using t by (simp add: s2_def)
qed


lemma recording_at_running:
  "is_dvr_recording (site (one_job pcr1 ''J1'') listing True) 0 running =
     (Inr (JBool True), running\<lparr>trace := trace running @ [GetSources]\<rparr>)"
  by (simp add: is_dvr_recording_def request_def site_def running_def)

lemma idle_at_fresh:
  "is_dvr_recording (site (one_job pcr1 ''J1'') listing True) 0 fresh =
     (Inr (JBool False), fresh\<lparr>trace := [GetSources]\<rparr>)"
  by (simp add: is_dvr_recording_def request_def site_def fresh_def)

lemma recording_after_start:
  "is_dvr_recording (site (one_job pcr1 ''J1'') listing True) 0
     (snd (start_secondary_recording (site (one_job pcr1 ''J1'') listing True)
             (JStr ''show'') (JStr ''PCR 1'') fresh)) =
   (Inr (JBool True),
    snd (is_dvr_recording (site (one_job pcr1 ''J1'') listing True) 0
      (snd (start_secondary_recording (site (one_job pcr1 ''J1'') listing True)
             (JStr ''show'') (JStr ''PCR 1'') fresh))))"
  by (simp add: eval_defs)

theorem start_is_idempotent_witness:
  "trace (snd (start_secondary_recording (site (one_job pcr1 ''J1'') listing True)
                 (JStr ''again'') (JStr ''PCR 1'') running)) = trace running @ [GetSources] \<and>
   trace (snd (start_secondary_recording (site (one_job pcr1 ''J1'') listing True)
                 (JStr ''show'') (JStr ''PCR 1'')
                 (snd (start_secondary_recording (site (one_job pcr1 ''J1'') listing True)
                         (JStr ''show'') (JStr ''PCR 1'') fresh)))) =
     [GetSources, PutRecordingName 0 (JStr ''show''), GetRecord 0, GetSources]"
proof -
  have t: "table_get logical_name_to_dvr_source_id (JStr ''PCR 1'') = Inr (Some 0)"
    by (simp add: logical_name_to_dvr_source_id_def)
  have p: "site (one_job pcr1 ''J1'') listing True (trace (fresh\<lparr>trace := [GetSources]\<rparr>))
             (PutRecordingName 0 (JStr ''show'')) \<noteq> RequestException"
    by (simp add: site_def)
  note w = start_is_idempotent[where l = "JStr ''PCR 1''" and i = 0
      and env = "site (one_job pcr1 ''J1'') listing True" and st = running
      and v = "JBool True" and ?st1.0 = "running\<lparr>trace := trace running @ [GetSources]\<rparr>"
      and b = "JStr ''again''"
      and l' = "JStr ''PCR 1''" and i' = 0
      and env' = "site (one_job pcr1 ''J1'') listing True" and s = fresh
      and ?v1.0 = "JBool False" and ?s1.0 = "fresh\<lparr>trace := [GetSources]\<rparr>"
      and b' = "JStr ''show''" and ?v2.0 = "JBool True"
      and ?s3.0 = "snd (is_dvr_recording (site (one_job pcr1 ''J1'') listing True) 0
        (snd (start_secondary_recording (site (one_job pcr1 ''J1'') listing True)
             (JStr ''show'') (JStr ''PCR 1'') fresh)))"]
  have tt: "truthy (JBool True)" and tf: "\<not> truthy (JBool False)" by simp_all
  from w t tt recording_at_running
  have a: "trace (snd (start_secondary_recording (site (one_job pcr1 ''J1'') listing True)
                 (JStr ''again'') (JStr ''PCR 1'') running)) = trace running @ [GetSources]"
    by blast
  from w t tt tf idle_at_fresh p recording_after_start
  have b: "trace (snd (start_secondary_recording (site (one_job pcr1 ''J1'') listing True)
                 (JStr ''show'') (JStr ''PCR 1'')
                 (snd (start_secondary_recording (site (one_job pcr1 ''J1'') listing True)
                         (JStr ''show'') (JStr ''PCR 1'') fresh)))) =
     trace fresh @ [GetSources, PutRecordingName 0 (JStr ''show''), GetRecord 0, GetSources]"
    by blast
  from a b show ?thesis by (simp add: fresh_def)
qed

section \<open>The recording check fails closed\<close>

lemma sources_failed_returns_false:
  assumes "sources_failed i (env (trace st) GetSources)"
  shows "\<exists>m args. is_dvr_recording env i st =
           (Inr (JBool False), logging ERROR m args (st\<lparr>trace := trace st @ [GetSources]\<rparr>))"
proof (cases "env (trace st) GetSources")
  case RequestException
  then show ?thesis by (simp add: is_dvr_recording_def request_def) blast
next
  case JSONDecodeError
  then show ?thesis by (simp add: is_dvr_recording_def request_def) blast
next
  case (Body j)
  with assms show ?thesis
    by (cases j) (simp_all add: is_dvr_recording_def request_def, blast+)
qed

text \<open>
  Claim C6, as amended. When the sources request gets no answer, or an answer that does
  not decode, or a payload that is not a list, or a list too short for the source id,
  \<^verbatim>\<open>is_dvr_recording\<close> logs an error and returns \<^verbatim>\<open>False\<close>. A start attempt for a
  logical name that has a source then goes past the check: its next request sets the
  recording name. When that request fails, the start attempt logs the failure and
  returns: the sources request and the name request are all it has made, and the start
  request is not among them.
\<close>

theorem recording_check_fails_closed:
  "(sources_failed i (env (trace st) GetSources) \<longrightarrow>
      (\<exists>m args. is_dvr_recording env i st =
         (Inr (JBool False), logging ERROR m args (st\<lparr>trace := trace st @ [GetSources]\<rparr>)))) \<and>
   (table_get logical_name_to_dvr_source_id l = Inr (Some i) \<and>
    sources_failed i (env (trace st) GetSources) \<longrightarrow>
      take (length (trace st) + 2) (trace (snd (start_secondary_recording env b l st))) =
        trace st @ [GetSources, PutRecordingName i b]) \<and>
   (table_get logical_name_to_dvr_source_id l = Inr (Some i) \<and>
    sources_failed i (env (trace st) GetSources) \<and>
    env (trace st @ [GetSources]) (PutRecordingName i b) = RequestException \<longrightarrow>
      fst (start_secondary_recording env b l st) = Inr () \<and>
      trace (snd (start_secondary_recording env b l st)) =
        trace st @ [GetSources, PutRecordingName i b] \<and>
      last (log (snd (start_secondary_recording env b l st))) =
        (ERROR, ''Failed to set recording name for {logical_name}: {e}'', [l]))"
proof (intro conjI impI)
  assume "sources_failed i (env (trace st) GetSources)"
  then show "\<exists>m args. is_dvr_recording env i st =
         (Inr (JBool False), logging ERROR m args (st\<lparr>trace := trace st @ [GetSources]\<rparr>))"
    by (rule sources_failed_returns_false)
next
  assume a: "table_get logical_name_to_dvr_source_id l = Inr (Some i) \<and>
    sources_failed i (env (trace st) GetSources)"
  then obtain m args where r: "is_dvr_recording env i st =
         (Inr (JBool False), logging ERROR m args (st\<lparr>trace := trace st @ [GetSources]\<rparr>))"
    using sources_failed_returns_false[of i env st] by blast
  from a r show "take (length (trace st) + 2)
        (trace (snd (start_secondary_recording env b l st))) =
        trace st @ [GetSources, PutRecordingName i b]"
    by (auto simp: start_secondary_recording_def request_def logging_def split: response.splits)
next
  assume a: "table_get logical_name_to_dvr_source_id l = Inr (Some i) \<and>
    sources_failed i (env (trace st) GetSources) \<and>
    env (trace st @ [GetSources]) (PutRecordingName i b) = RequestException"
  then obtain m args where r: "is_dvr_recording env i st =
         (Inr (JBool False), logging ERROR m args (st\<lparr>trace := trace st @ [GetSources]\<rparr>))"
    using sources_failed_returns_false[of i env st] by blast
  from a r have s: "start_secondary_recording env b l st =
      (Inr (), logging ERROR ''Failed to set recording name for {logical_name}: {e}'' [l]
         ((logging ERROR m args (st\<lparr>trace := trace st @ [GetSources]\<rparr>))
            \<lparr>trace := trace st @ [GetSources, PutRecordingName i b]\<rparr>))"
    by (simp add: start_secondary_recording_def request_def logging_def)
  show "fst (start_secondary_recording env b l st) = Inr ()" by (simp add: s)
  show "trace (snd (start_secondary_recording env b l st)) =
        trace st @ [GetSources, PutRecordingName i b]"
    by (simp add: s logging_def)
  show "last (log (snd (start_secondary_recording env b l st))) =
        (ERROR, ''Failed to set recording name for {logical_name}: {e}'', [l])"
    by (simp add: s logging_def)
qed

theorem recording_check_fails_closed_witness:
  "sources_failed 0 (site (one_job pcr1 ''J1'') listing False (trace fresh) GetSources) \<and>
   fst (is_dvr_recording (site (one_job pcr1 ''J1'') listing False) 0 fresh) = Inr (JBool False) \<and>
   fst (start_secondary_recording (site (one_job pcr1 ''J1'') listing False)
          (JStr ''show'') (JStr ''PCR 1'') fresh) = Inr () \<and>
   trace (snd (start_secondary_recording (site (one_job pcr1 ''J1'') listing False)
          (JStr ''show'') (JStr ''PCR 1'') fresh)) =
     [GetSources, PutRecordingName 0 (JStr ''show'')]"
proof -
  have h: "sources_failed 0 (site (one_job pcr1 ''J1'') listing False (trace fresh) GetSources)"
    by (simp add: site_def)
  have t: "table_get logical_name_to_dvr_source_id (JStr ''PCR 1'') = Inr (Some 0)"
    by (simp add: logical_name_to_dvr_source_id_def)
  have p: "site (one_job pcr1 ''J1'') listing False (trace fresh @ [GetSources])
             (PutRecordingName 0 (JStr ''show'')) = RequestException"
    by (simp add: site_def)
  note w = recording_check_fails_closed[where i = 0
      and env = "site (one_job pcr1 ''J1'') listing False" and st = fresh
      and l = "JStr ''PCR 1''" and b = "JStr ''show''"]
  from w h have a: "fst (is_dvr_recording (site (one_job pcr1 ''J1'') listing False) 0 fresh) =
      Inr (JBool False)"
    by force
  from w h t p have b: "fst (start_secondary_recording (site (one_job pcr1 ''J1'') listing False)
          (JStr ''show'') (JStr ''PCR 1'') fresh) = Inr () \<and>
   trace (snd (start_secondary_recording (site (one_job pcr1 ''J1'') listing False)
          (JStr ''show'') (JStr ''PCR 1'') fresh)) =
     trace fresh @ [GetSources, PutRecordingName 0 (JStr ''show'')]"
    by blast
  from h a b show ?thesis by (simp add: fresh_def)
qed

text \<open>
  The claim as the specification words it (the check returns false on any payload of
  the wrong shape, and the start goes on) fails for a sources list whose entry at the
  source id is not an object. The payload is a list and long enough, so none of the four
  logged cases applies; \<^verbatim>\<open>source.get\<close> raises \<^verbatim>\<open>AttributeError\<close>, which no handler of
  \<^verbatim>\<open>is_dvr_recording\<close> catches: the check returns nothing, and the start attempt ends
  with the exception after the sources request, without setting the name.
\<close>

theorem recording_check_counterexample:
  "bare_sources (trace fresh) GetSources =
     Body (JList [JBool True, JDict [(''is_recording'', JBool False)]]) \<and>
   \<not> sources_failed 0 (bare_sources (trace fresh) GetSources) \<and>
   fst (is_dvr_recording bare_sources 0 fresh) = Inl AttributeError \<and>
   fst (is_dvr_recording bare_sources 0 fresh) \<noteq> Inr (JBool False) \<and>
   log (snd (is_dvr_recording bare_sources 0 fresh)) = [] \<and>
   start_secondary_recording bare_sources (JStr ''show'') (JStr ''PCR 1'') fresh =
     (Inl AttributeError, fresh\<lparr>trace := [GetSources]\<rparr>)"
  by (simp add: bare_sources_def is_dvr_recording_def request_def fresh_def
      start_secondary_recording_def logical_name_to_dvr_source_id_def)

section \<open>Stopping the jobs that went away\<close>

lemma is_job_info_cases:
  assumes "is_job_info v"
  obtains b l where "v = JDict [(''basename'', b), (''logical_name'', JStr l)]"
  using assms by (cases v rule: is_job_info.cases) auto

lemma stop_loop_is_stop_each:
  assumes "\<forall>k \<in> set ks. \<exists>v. map_of previous k = Some v \<and> is_job_info v"
  shows "stop_stopped_jobs env previous ks st = stop_each env (map (stored_names previous) ks) st"
  using assms
proof (induction ks arbitrary: st)
  case Nil
  then show ?case by simp
next
  case (Cons k ks)
  then obtain v where v: "map_of previous k = Some v" "is_job_info v" by auto
  then obtain b l where vb: "v = JDict [(''basename'', b), (''logical_name'', JStr l)]"
    by (auto elim: is_job_info_cases)
  have sn: "stored_names previous k = (b, JStr l)"
    by (simp add: stored_names_def v vb)
  have ih: "\<And>s. stop_stopped_jobs env previous ks s =
                 stop_each env (map (stored_names previous) ks) s"
    using Cons by simp
  show ?case
    by (simp add: v vb sn ih split: prod.splits sum.splits)
qed

lemma stopped_keys_stored:
  "k \<in> set (stopped_jobs current previous) \<Longrightarrow> \<exists>v. map_of previous k = Some v"
  by (auto simp: stopped_jobs_def dest: weak_map_of_SomeI)

lemma stop_when_idle:
  assumes "table_get logical_name_to_dvr_source_id l = Inr (Some i)"
    and "is_dvr_recording env i st = (Inr v, st1)" and "\<not> truthy v"
  shows "stop_secondary_recording env b l st =
           (Inr (), logging INFO ''DVR for {logical_name} is not recording'' [l] st1)"
  using assms by (simp add: stop_secondary_recording_def)

text \<open>
  Claim C8. In a cycle whose fetch and start loop have run, and whose stored job set
  holds job records, the stop loop is one call of stop-recording for each key of the
  stopped jobs, with the basename and the logical name stored under that key before the
  cycle: the current job set and the answers of the primary system take no part in the
  arguments. Stop-recording itself, when the logical name has a source and the recording
  check returns a false value, logs that the recorder is not recording and returns
  after the one sources request, with no stop request.
\<close>

theorem stops_use_stored_record:
  "(fetch_current_active_jobs env st = (Inr current, st1) \<and>
    start_new_jobs env current (new_jobs current (previous_active_jobs st)) st1 = (Inr (), st2) \<and>
    (\<forall>v \<in> snd ` set (previous_active_jobs st). is_job_info v) \<longrightarrow>
      process_polling_cycle env st =
        (case stop_each env
                (map (stored_names (previous_active_jobs st))
                   (stopped_jobs current (previous_active_jobs st))) st2 of
           (Inl e, st3) \<Rightarrow> (Inl e, st3)
         | (Inr u, st3) \<Rightarrow> (Inr (), save_state (st3\<lparr>previous_active_jobs := current\<rparr>)))) \<and>
   (table_get logical_name_to_dvr_source_id l = Inr (Some i) \<and>
    is_dvr_recording env' i s = (Inr v, s1) \<and> \<not> truthy v \<longrightarrow>
      stop_secondary_recording env' b l s =
        (Inr (), logging INFO ''DVR for {logical_name} is not recording'' [l] s1) \<and>
      trace (snd (stop_secondary_recording env' b l s)) = trace s @ [GetSources])"
proof (intro conjI impI)
  assume a: "fetch_current_active_jobs env st = (Inr current, st1) \<and>
    start_new_jobs env current (new_jobs current (previous_active_jobs st)) st1 = (Inr (), st2) \<and>
    (\<forall>v \<in> snd ` set (previous_active_jobs st). is_job_info v)"
  then have "io_only st st1" by (blast intro: io_only_fetch)
  then have p1: "previous_active_jobs st1 = previous_active_jobs st"
    by (simp add: io_only_def)
  from a have "io_only st1 st2" by (blast intro: io_only_start_new_jobs)
  then have p2: "previous_active_jobs st2 = previous_active_jobs st1"
    by (simp add: io_only_def)
  have k: "\<forall>k \<in> set (stopped_jobs current (previous_active_jobs st)).
             \<exists>v. map_of (previous_active_jobs st) k = Some v \<and> is_job_info v"
  proof
    fix k assume "k \<in> set (stopped_jobs current (previous_active_jobs st))"
    then obtain v where v: "map_of (previous_active_jobs st) k = Some v"
      using stopped_keys_stored by blast
    then have "(k, v) \<in> set (previous_active_jobs st)" by (rule map_of_SomeD)
    then have "v \<in> snd ` set (previous_active_jobs st)" by force
    with a v show "\<exists>v. map_of (previous_active_jobs st) k = Some v \<and> is_job_info v" by blast
  qed
  show "process_polling_cycle env st =
        (case stop_each env
                (map (stored_names (previous_active_jobs st))
                   (stopped_jobs current (previous_active_jobs st))) st2 of
           (Inl e, st3) \<Rightarrow> (Inl e, st3)
         | (Inr u, st3) \<Rightarrow> (Inr (), save_state (st3\<lparr>previous_active_jobs := current\<rparr>)))"
    using a p1 p2 stop_loop_is_stop_each[OF k, of env st2]
    by (simp add: process_polling_cycle_def)
next
  assume a: "table_get logical_name_to_dvr_source_id l = Inr (Some i) \<and>
    is_dvr_recording env' i s = (Inr v, s1) \<and> \<not> truthy v"
  then show r: "stop_secondary_recording env' b l s =
        (Inr (), logging INFO ''DVR for {logical_name} is not recording'' [l] s1)"
    by (simp add: stop_when_idle)
  from a have "trace s1 = trace s @ [GetSources]"
    using trace_is_dvr_recording[of env' i s "Inr v" s1] by simp
  then show "trace (snd (stop_secondary_recording env' b l s)) = trace s @ [GetSources]"
    by (simp add: r trace_logging)
qed


lemma idle_site_fetch:
  "fetch_current_active_jobs (site (Body (JList [])) listing True) running =
     (Inr [], running\<lparr>trace := trace running @ [GetActiveJobsInfo]\<rparr>)"
  by (simp add: fetch_current_active_jobs_def get_active_jobs_info_def request_def site_def)

lemma source_1_idle:
  "is_dvr_recording (site (Body (JList [])) listing True) 1 running =
     (Inr (JBool False), running\<lparr>trace := trace running @ [GetSources]\<rparr>)"
  by (simp add: is_dvr_recording_def request_def site_def running_def)

theorem stops_use_stored_record_witness:
  "stored_names (previous_active_jobs running) [JStr pcr1, JStr ''J1''] =
     (JStr ''show_20240101'', JStr ''PCR 1'') \<and>
   process_polling_cycle (site (Body (JList [])) listing True) running =
     (case stop_each (site (Body (JList [])) listing True)
             [(JStr ''show_20240101'', JStr ''PCR 1'')]
             (running\<lparr>trace := trace running @ [GetActiveJobsInfo]\<rparr>) of
        (Inl e, st3) \<Rightarrow> (Inl e, st3)
      | (Inr u, st3) \<Rightarrow> (Inr (), save_state (st3\<lparr>previous_active_jobs := []\<rparr>))) \<and>
   trace (snd (stop_secondary_recording (site (Body (JList [])) listing True)
                 (JStr ''other'') (JStr ''PCR 2'') running)) = trace running @ [GetSources]"
proof -
  have n: "start_new_jobs (site (Body (JList [])) listing True) []
             (new_jobs [] (previous_active_jobs running))
             (running\<lparr>trace := trace running @ [GetActiveJobsInfo]\<rparr>) =
           (Inr (), running\<lparr>trace := trace running @ [GetActiveJobsInfo]\<rparr>)"
    by (simp add: new_jobs_def)
  have j: "\<forall>v \<in> snd ` set (previous_active_jobs running). is_job_info v"
    by (simp add: running_def job_info_def)
  have t: "table_get logical_name_to_dvr_source_id (JStr ''PCR 2'') = Inr (Some 1)"
    by (simp add: logical_name_to_dvr_source_id_def)
  have f: "\<not> truthy (JBool False)" by simp
  have sn: "stored_names (previous_active_jobs running) [JStr pcr1, JStr ''J1''] =
     (JStr ''show_20240101'', JStr ''PCR 1'')"
    by (simp add: stored_names_def running_def job_info_def)
  have sj: "stopped_jobs [] (previous_active_jobs running) = [[JStr pcr1, JStr ''J1'']]"
    by (simp add: stopped_jobs_def running_def)
  note w = stops_use_stored_record[where env = "site (Body (JList [])) listing True"
      and st = running and current = "[]"
      and ?st1.0 = "running\<lparr>trace := trace running @ [GetActiveJobsInfo]\<rparr>"
      and ?st2.0 = "running\<lparr>trace := trace running @ [GetActiveJobsInfo]\<rparr>"
      and l = "JStr ''PCR 2''" and i = 1
      and env' = "site (Body (JList [])) listing True" and s = running
      and v = "JBool False" and ?s1.0 = "running\<lparr>trace := trace running @ [GetSources]\<rparr>"
      and b = "JStr ''other''"]
  from w idle_site_fetch n j
  have a: "process_polling_cycle (site (Body (JList [])) listing True) running =
     (case stop_each (site (Body (JList [])) listing True)
             (map (stored_names (previous_active_jobs running))
                (stopped_jobs [] (previous_active_jobs running)))
             (running\<lparr>trace := trace running @ [GetActiveJobsInfo]\<rparr>) of
        (Inl e, st3) \<Rightarrow> (Inl e, st3)
      | (Inr u, st3) \<Rightarrow> (Inr (), save_state (st3\<lparr>previous_active_jobs := []\<rparr>)))"
    by blast
  from w t source_1_idle f
  have b: "trace (snd (stop_secondary_recording (site (Body (JList [])) listing True)
                 (JStr ''other'') (JStr ''PCR 2'') running)) = trace running @ [GetSources]"
    by blast
  from a have a': "process_polling_cycle (site (Body (JList [])) listing True) running =
     (case stop_each (site (Body (JList [])) listing True)
             [(JStr ''show_20240101'', JStr ''PCR 1'')]
             (running\<lparr>trace := trace running @ [GetActiveJobsInfo]\<rparr>) of
        (Inl e, st3) \<Rightarrow> (Inl e, st3)
      | (Inr u, st3) \<Rightarrow> (Inr (), save_state (st3\<lparr>previous_active_jobs := []\<rparr>)))"
    unfolding sj by (simp add: sn)
  from sn a' b show ?thesis by blast
qed

section \<open>Loading fails open\<close>

lemma load_state_malformed:
  assumes "malformed (state_file st)"
  shows "previous_active_jobs (load_state st) = [] \<and>
         (\<exists>m rest. log (load_state st) = log st @ (ERROR, m, []) # rest)"
proof (cases "state_file st")
  case NoFile
  with assms show ?thesis by simp
next
  case Unreadable
  then show ?thesis by (simp add: load_state_def logging_def)
next
  case Undecodable
  then show ?thesis by (simp add: load_state_def logging_def)
next
  case (Doc j)
  with assms show ?thesis by (cases j) (simp_all add: load_state_def logging_def)
qed

lemma new_jobs_empty_previous: "new_jobs current [] = map fst current"
  by (simp add: new_jobs_def)

lemma stopped_jobs_empty_previous: "stopped_jobs current [] = []"
  by (simp add: stopped_jobs_def)

text \<open>
  Claim C7. \<^verbatim>\<open>load_state\<close> catches every exception, so in the model it is a total
  function with no error result. When the state file is missing, the loaded job set is
  empty and the log notes a fresh start. When the content of the file is malformed (it
  cannot be read, it is not JSON, or the document is not a dictionary), the loaded job
  set is empty and an error is logged. A cycle that begins with an empty stored job set
  and whose fetch succeeds takes every key of the current job set as new and none as
  stopped: its start loop runs over all the current keys.
\<close>

theorem load_fails_open:
  "(state_file st = NoFile \<longrightarrow>
      previous_active_jobs (load_state st) = [] \<and>
      log (load_state st) =
        log st @ [(INFO, ''No previous state file found. Starting fresh.'', [])]) \<and>
   (malformed (state_file st') \<longrightarrow>
      previous_active_jobs (load_state st') = [] \<and>
      (\<exists>m rest. log (load_state st') = log st' @ (ERROR, m, []) # rest)) \<and>
   (previous_active_jobs s = [] \<and> fetch_current_active_jobs env s = (Inr current, s1) \<longrightarrow>
      new_jobs current (previous_active_jobs s1) = map fst current \<and>
      stopped_jobs current (previous_active_jobs s1) = [] \<and>
      process_polling_cycle env s =
        (case start_new_jobs env current (map fst current) s1 of
           (Inl e, s2) \<Rightarrow> (Inl e, s2)
         | (Inr u, s2) \<Rightarrow> (Inr (), save_state (s2\<lparr>previous_active_jobs := current\<rparr>))))"
proof (intro conjI impI)
  assume "state_file st = NoFile"
  then show "previous_active_jobs (load_state st) = []"
    and "log (load_state st) =
        log st @ [(INFO, ''No previous state file found. Starting fresh.'', [])]"
    by (simp_all add: load_state_def logging_def)
next
  assume m: "malformed (state_file st')"
  then show "previous_active_jobs (load_state st') = []"
    using load_state_malformed by blast
  from m show "\<exists>m rest. log (load_state st') = log st' @ (ERROR, m, []) # rest"
    using load_state_malformed by blast
next
  assume a: "previous_active_jobs s = [] \<and> fetch_current_active_jobs env s = (Inr current, s1)"
  then have "io_only s s1" by (blast intro: io_only_fetch)
  with a have p: "previous_active_jobs s1 = []" by (simp add: io_only_def)
  show "new_jobs current (previous_active_jobs s1) = map fst current"
    by (simp add: p new_jobs_empty_previous)
  show "stopped_jobs current (previous_active_jobs s1) = []"
    by (simp add: p stopped_jobs_empty_previous)
  have q: "previous_active_jobs s2 = []"
    if "start_new_jobs env current (map fst current) s1 = (r, s2)" for r s2
    using io_only_start_new_jobs[OF that] p by (simp add: io_only_def)
  show "process_polling_cycle env s =
        (case start_new_jobs env current (map fst current) s1 of
           (Inl e, s2) \<Rightarrow> (Inl e, s2)
         | (Inr u, s2) \<Rightarrow> (Inr (), save_state (s2\<lparr>previous_active_jobs := current\<rparr>)))"
    using a p q
    by (auto simp: process_polling_cycle_def new_jobs_empty_previous stopped_jobs_empty_previous
        split: prod.splits sum.splits)
qed

lemma load_undecodable:
  "load_state (fresh\<lparr>state_file := Undecodable\<rparr>) =
     fresh\<lparr>state_file := Undecodable,
           log := [(ERROR, ''JSON decoding error in state file: {e}'', [])]\<rparr>"
  by (simp add: load_state_def logging_def fresh_def)

lemma fetch_after_bad_load:
  "fetch_current_active_jobs (site (one_job pcr1 ''J1'') listing True)
     (load_state (fresh\<lparr>state_file := Undecodable\<rparr>)) =
   (Inr [([JStr pcr1, JStr ''J1''], job_info (JStr ''show_20240101'') ''PCR 1'')],
    snd (fetch_current_active_jobs (site (one_job pcr1 ''J1'') listing True)
     (load_state (fresh\<lparr>state_file := Undecodable\<rparr>))))"
  by (simp add: load_undecodable) (simp add: eval_defs)

theorem load_fails_open_witness:
  "previous_active_jobs (load_state fresh) = [] \<and>
   previous_active_jobs (load_state (fresh\<lparr>state_file := Undecodable\<rparr>)) = [] \<and>
   new_jobs [([JStr pcr1, JStr ''J1''], job_info (JStr ''show_20240101'') ''PCR 1'')]
     (previous_active_jobs
        (snd (fetch_current_active_jobs (site (one_job pcr1 ''J1'') listing True)
                (load_state (fresh\<lparr>state_file := Undecodable\<rparr>))))) =
     [[JStr pcr1, JStr ''J1'']]"
proof -
  have n: "state_file fresh = NoFile" by (simp add: fresh_def)
  have m: "malformed (state_file (fresh\<lparr>state_file := Undecodable\<rparr>))" by simp
  note w = load_fails_open[where st = fresh and st' = "fresh\<lparr>state_file := Undecodable\<rparr>"
      and s = "load_state (fresh\<lparr>state_file := Undecodable\<rparr>)"
      and env = "site (one_job pcr1 ''J1'') listing True"
      and current = "[([JStr pcr1, JStr ''J1''], job_info (JStr ''show_20240101'') ''PCR 1'')]"
      and ?s1.0 = "snd (fetch_current_active_jobs (site (one_job pcr1 ''J1'') listing True)
                (load_state (fresh\<lparr>state_file := Undecodable\<rparr>)))"]
  from w n have a: "previous_active_jobs (load_state fresh) = []" by blast
  from w m have b: "previous_active_jobs (load_state (fresh\<lparr>state_file := Undecodable\<rparr>)) = []"
    by blast
  from w b fetch_after_bad_load
  have c: "new_jobs [([JStr pcr1, JStr ''J1''], job_info (JStr ''show_20240101'') ''PCR 1'')]
     (previous_active_jobs
        (snd (fetch_current_active_jobs (site (one_job pcr1 ''J1'') listing True)
                (load_state (fresh\<lparr>state_file := Undecodable\<rparr>))))) =
     map fst [([JStr pcr1, JStr ''J1''], job_info (JStr ''show_20240101'') ''PCR 1'')]"
    by blast
  from a b c show ?thesis by simp
qed

section \<open>Jobs of an unknown ingest\<close>

lemma map_of_dict_set: "map_of (dict_set k v d) = (map_of d)(k \<mapsto> v)"
  by (induction d) auto

lemma dict_set_keys: "fst ` set (dict_set k v d) = insert k (fst ` set d)"
  by (simp flip: dom_map_of_conv_image_fst add: map_of_dict_set)

lemma dict_set_subset: "set (dict_set k v d) \<subseteq> insert (k, v) (set d)"
  by (induction d) (auto split: if_splits)

lemma dict_set_distinct: "distinct (map fst d) \<Longrightarrow> distinct (map fst (dict_set k v d))"
proof (induction d)
  case Nil
  then show ?case by simp
next
  case (Cons kv d)
  obtain k' v' where kv: "kv = (k', v')" by (cases kv)
  have "fst ` set (dict_set k v d) = insert k (fst ` set d)" by (rule dict_set_keys)
  with Cons kv show ?case by auto
qed

lemma built_entry_job_info:
  "logical_name_of i = Inr n \<Longrightarrow> built_entry ([i, j], job_info b n)"
  by (simp add: job_info_def)

lemma cycle_built_dict_set:
  assumes "cycle_built current" and "logical_name_of i = Inr n"
  shows "cycle_built (dict_set [i, j] (job_info b n) current)"
proof -
  have "\<forall>e \<in> set (dict_set [i, j] (job_info b n) current). built_entry e"
    using dict_set_subset[of "[i, j]" "job_info b n" current] assms
      built_entry_job_info[OF assms(2), of j b]
    by (auto simp: cycle_built_def list_all_iff)
  with assms(1) show ?thesis
    by (simp add: cycle_built_def list_all_iff dict_set_distinct)
qed

lemma cycle_built_process_jobs:
  assumes "logical_name_of i = Inr n"
  shows "cycle_built current \<Longrightarrow> process_jobs env i n js current st = (Inr current', st') \<Longrightarrow>
         cycle_built current'"
proof (induction js arbitrary: current st)
  case Nil
  then show ?case by simp
next
  case (Cons job js)
  from Cons.prems(2) show ?case
    by (auto split: sum.splits prod.splits if_splits
        intro: Cons.IH[OF cycle_built_dict_set[OF Cons.prems(1) assms]] Cons.IH[OF Cons.prems(1)])
qed

lemma cycle_built_process_ingests:
  "cycle_built current \<Longrightarrow> process_ingests env xs current st = (Inr current', st') \<Longrightarrow>
   cycle_built current'"
proof (induction xs arbitrary: current st)
  case Nil
  then show ?case by simp
next
  case (Cons x xs)
  from Cons.prems(2) show ?case
    by (auto split: sum.splits prod.splits
        dest!: cycle_built_process_jobs[OF _ Cons.prems(1)] intro: Cons.IH)
qed

lemma cycle_built_fetch:
  "fetch_current_active_jobs env st = (Inr current, st1) \<Longrightarrow> cycle_built current"
  by (auto simp: fetch_current_active_jobs_def cycle_built_def split: prod.splits
      dest!: cycle_built_process_ingests[rotated])

lemma extract_basename_fixed:
  assumes "\<forall>h. env h (GetFiles i j) = Body (JDict d)"
  shows "extract_basename env i j st =
           (extract_primary_file_basename (JDict d), st\<lparr>trace := trace st @ [GetFiles i j]\<rparr>)"
  using assms by (simp add: extract_basename_listing)

lemma stored_process_jobs:
  assumes files: "\<forall>h. env h (GetFiles (JStr a) j) = Body (JDict d)"
    and base: "extract_primary_file_basename (JDict d) = Inr b"
    and name: "i = JStr a \<longrightarrow> n = ''Unknown Ingest''"
  shows "map_of current [JStr a, j] = Some (job_info b ''Unknown Ingest'') \<Longrightarrow>
         process_jobs env i n js current st = (Inr current', st') \<Longrightarrow>
         map_of current' [JStr a, j] = Some (job_info b ''Unknown Ingest'')"
proof (induction js arbitrary: current st)
  case Nil
  then show ?case by simp
next
  case (Cons job js)
  show ?case
  proof (cases "dict_get job ''id'' JNull")
    case (Inl e)
    with Cons.prems show ?thesis by simp
  next
    case (Inr job_id)
    obtain r st1 where e: "extract_basename env i job_id st = (r, st1)" by force
    show ?thesis
    proof (cases r)
      case (Inl e')
      with Cons.prems Inr e show ?thesis by simp
    next
      case r: (Inr bn)
      show ?thesis
      proof (cases "truthy bn")
        case False
        with Cons.prems Inr e r show ?thesis by (auto intro: Cons.IH)
      next
        case True
        with Cons.prems(2) Inr e r have h: "hashable i \<and> hashable job_id"
          by (auto split: if_splits)
        with Cons.prems(2) Inr e r True
        have rec: "process_jobs env i n js (dict_set [i, job_id] (job_info bn n) current) st1 =
                     (Inr current', st')" by simp
        have "map_of (dict_set [i, job_id] (job_info bn n) current) [JStr a, j] =
                Some (job_info b ''Unknown Ingest'')"
        proof (cases "[i, job_id] = [JStr a, j]")
          case False
          then show ?thesis using Cons.prems(1) by (auto simp: map_of_dict_set)
        next
          case same: True
          then have "extract_basename env i job_id st = (Inr b, st\<lparr>trace := trace st @ [GetFiles i job_id]\<rparr>)"
            using extract_basename_fixed[where env = env and i = "JStr a" and j = j and d = d
                and st = st] files base by simp
          with e r have "bn = b" by simp
          with same name show ?thesis by (simp add: map_of_dict_set)
        qed
        then show ?thesis using rec by (rule Cons.IH)
      qed
    qed
  qed
qed

lemma added_process_jobs:
  assumes files: "\<forall>h. env h (GetFiles (JStr a) j) = Body (JDict d)"
    and base: "extract_primary_file_basename (JDict d) = Inr b" and tr: "truthy b"
    and id: "dict_get job ''id'' JNull = Inr j"
  shows "job \<in> set js \<Longrightarrow>
         process_jobs env (JStr a) ''Unknown Ingest'' js current st = (Inr current', st') \<Longrightarrow>
         map_of current' [JStr a, j] = Some (job_info b ''Unknown Ingest'')"
proof (induction js arbitrary: current st)
  case Nil
  then show ?case by simp
next
  case (Cons x js)
  have keep: "map_of c' [JStr a, j] = Some (job_info b ''Unknown Ingest'')"
    if "map_of c [JStr a, j] = Some (job_info b ''Unknown Ingest'')"
      and "process_jobs env (JStr a) ''Unknown Ingest'' js c s = (Inr c', s')" for c s c' s'
    using stored_process_jobs[where env = env and a = a and j = j and d = d and b = b
        and i = "JStr a" and n = "''Unknown Ingest''" and current = c and st = s
        and current' = c' and st' = s' and js = js] files base that by blast
  show ?case
  proof (cases "x = job")
    case True
    have e: "extract_basename env (JStr a) j st =
               (Inr b, st\<lparr>trace := trace st @ [GetFiles (JStr a) j]\<rparr>)"
      using extract_basename_fixed[where env = env and i = "JStr a" and j = j and d = d
          and st = st] files base by simp
    from Cons.prems(2) True id e tr
    have rec: "process_jobs env (JStr a) ''Unknown Ingest'' js
                 (dict_set [JStr a, j] (job_info b ''Unknown Ingest'') current)
                 (st\<lparr>trace := trace st @ [GetFiles (JStr a) j]\<rparr>) = (Inr current', st')"
      by (auto split: if_splits)
    have "map_of (dict_set [JStr a, j] (job_info b ''Unknown Ingest'') current) [JStr a, j] =
            Some (job_info b ''Unknown Ingest'')"
      by (simp add: map_of_dict_set)
    then show ?thesis using rec keep by blast
  next
    case False
    with Cons.prems(1) have m: "job \<in> set js" by simp
    from Cons.prems(2) show ?thesis
      by (auto split: sum.splits prod.splits if_splits intro: Cons.IH[OF m])
  qed
qed

lemma unknown_logical_name:
  "map_of ingest_id_map a = None \<Longrightarrow> logical_name_of (JStr a) = Inr ''Unknown Ingest''"
  by (simp add: logical_name_of_def)

lemma stored_process_ingests:
  assumes files: "\<forall>h. env h (GetFiles (JStr a) j) = Body (JDict d)"
    and base: "extract_primary_file_basename (JDict d) = Inr b"
    and unknown: "map_of ingest_id_map a = None"
  shows "map_of current [JStr a, j] = Some (job_info b ''Unknown Ingest'') \<Longrightarrow>
         process_ingests env xs current st = (Inr current', st') \<Longrightarrow>
         map_of current' [JStr a, j] = Some (job_info b ''Unknown Ingest'')"
proof (induction xs arbitrary: current st)
  case Nil
  then show ?case by simp
next
  case (Cons x xs)
  from Cons.prems(2) obtain i n js c1 s1 where
    i: "dict_get x ''ingestId'' JNull = Inr i" and n: "logical_name_of i = Inr n"
    and pj: "process_jobs env i n js current st = (Inr c1, s1)"
    and rest: "process_ingests env xs c1 s1 = (Inr current', st')"
    by (auto split: sum.splits prod.splits)
  have "i = JStr a \<longrightarrow> n = ''Unknown Ingest''"
    using n unknown_logical_name[OF unknown] by auto
  then have "map_of c1 [JStr a, j] = Some (job_info b ''Unknown Ingest'')"
    using stored_process_jobs[where env = env and a = a and j = j and d = d and b = b
        and i = i and n = n and current = current and st = st
        and current' = c1 and st' = s1 and js = js] files base Cons.prems(1) pj by blast
  then show ?case using rest by (rule Cons.IH)
qed

lemma added_process_ingests:
  assumes files: "\<forall>h. env h (GetFiles (JStr a) j) = Body (JDict d)"
    and base: "extract_primary_file_basename (JDict d) = Inr b" and tr: "truthy b"
    and unknown: "map_of ingest_id_map a = None"
    and ingest: "dict_get ingest ''ingestId'' JNull = Inr (JStr a)"
      "dict_get ingest ''activeJobsInfo'' (JList []) = Inr (JList js)"
    and job: "job \<in> set js" "dict_get job ''id'' JNull = Inr j"
  shows "ingest \<in> set xs \<Longrightarrow>
         process_ingests env xs current st = (Inr current', st') \<Longrightarrow>
         map_of current' [JStr a, j] = Some (job_info b ''Unknown Ingest'')"
proof (induction xs arbitrary: current st)
  case Nil
  then show ?case by simp
next
  case (Cons x xs)
  show ?case
  proof (cases "x = ingest")
    case True
    from Cons.prems(2) True ingest unknown_logical_name[OF unknown]
    obtain c1 s1 where
      pj: "process_jobs env (JStr a) ''Unknown Ingest'' js current st = (Inr c1, s1)"
      and rest: "process_ingests env xs c1 s1 = (Inr current', st')"
      by (auto split: sum.splits prod.splits)
    have "map_of c1 [JStr a, j] = Some (job_info b ''Unknown Ingest'')"
      using added_process_jobs[where env = env and a = a and j = j and d = d and b = b
          and job = job and js = js and current = current and st = st
          and current' = c1 and st' = s1] files base tr job pj by blast
    then show ?thesis
      using stored_process_ingests[where env = env and a = a and j = j and d = d and b = b
          and xs = xs and current = c1 and st = s1 and current' = current' and st' = st']
        files base unknown rest by blast
  next
    case False
    with Cons.prems(1) have m: "ingest \<in> set xs" by simp
    from Cons.prems(2) show ?thesis
      by (auto split: sum.splits prod.splits intro: Cons.IH[OF m])
  qed
qed

lemma cycle_result:
  assumes "process_polling_cycle env st = (Inr (), st')"
  shows "\<exists>current s1 s3. fetch_current_active_jobs env st = (Inr current, s1) \<and>
           io_only st s3 \<and> st' = save_state (s3\<lparr>previous_active_jobs := current\<rparr>)"
proof -
  obtain r s1 where f: "fetch_current_active_jobs env st = (r, s1)" by force
  with assms obtain current where r: "r = Inr current"
    by (cases r) (auto simp: process_polling_cycle_def)
  obtain r2 s2 where n: "start_new_jobs env current
      (new_jobs current (previous_active_jobs s1)) s1 = (r2, s2)" by force
  obtain r3 s3 where p: "stop_stopped_jobs env (previous_active_jobs s2)
      (stopped_jobs current (previous_active_jobs s2)) s2 = (r3, s3)" by force
  from assms f r n p have st': "st' = save_state (s3\<lparr>previous_active_jobs := current\<rparr>)"
    by (auto simp: process_polling_cycle_def split: sum.splits)
  have "io_only st s1" using f by (rule io_only_fetch)
  moreover have "io_only s1 s2" using n by (rule io_only_start_new_jobs)
  moreover have "io_only s2 s3" using p by (rule io_only_stop_stopped_jobs)
  ultimately have "io_only st s3" by (blast intro: io_only_trans)
  with f r st' show ?thesis by blast
qed

lemma fetch_of_list:
  assumes "env (trace st) GetActiveJobsInfo = Body (JList ingests)"
  shows "fetch_current_active_jobs env st =
           process_ingests env ingests [] (st\<lparr>trace := trace st @ [GetActiveJobsInfo]\<rparr>)"
  using assms by (simp add: fetch_current_active_jobs_def get_active_jobs_info_def request_def)

lemma built_entry_dict: "built_entry e \<Longrightarrow> is_dict (snd e)"
  by (cases e rule: built_entry.cases) auto

lemma status_of_dicts:
  "\<forall>v \<in> snd ` set S. is_dict v \<Longrightarrow> status_of S acc = state_to_data S acc"
proof (induction S arbitrary: acc)
  case Nil
  then show ?case by simp
next
  case (Cons kv S)
  obtain k v where kv: "kv = (k, v)" by (cases kv)
  with Cons.prems obtain kvs where v: "v = JDict kvs" by (cases v) auto
  from Cons kv v show ?case by (simp split: sum.splits)
qed

lemma join_key_string_pair: "string_pair k \<Longrightarrow> join_key k = Inr (key_string k)"
  by (cases k rule: string_pair.cases) (simp_all add: key_string_def join_key_def)

lemma state_to_data_strings:
  assumes "\<forall>k \<in> fst ` set S. string_pair k" and "inj_on key_string (fst ` set S)"
    and "distinct (map fst S)" and "\<forall>k \<in> fst ` set S. key_string k \<notin> fst ` set acc"
  shows "state_to_data S acc = Inr (acc @ map (\<lambda>(k, v). (key_string k, v)) S)"
  using assms
proof (induction S arbitrary: acc)
  case Nil
  then show ?case by simp
next
  case (Cons kv S)
  obtain k v where kv: "kv = (k, v)" by (cases kv)
  from Cons.prems kv have sk: "string_pair k" and new: "key_string k \<notin> fst ` set acc"
    by auto
  have other: "\<forall>k' \<in> fst ` set S. key_string k' \<noteq> key_string k"
  proof
    fix k' assume m: "k' \<in> fst ` set S"
    with Cons.prems(3) kv have "k' \<noteq> k" by auto
    moreover from m kv have "k' \<in> fst ` set (kv # S)" "k \<in> fst ` set (kv # S)" by auto
    ultimately show "key_string k' \<noteq> key_string k"
      using inj_onD[OF Cons.prems(2), of k' k] by blast
  qed
  have a: "\<forall>k \<in> fst ` set S. string_pair k" using Cons.prems(1) by auto
  have b: "inj_on key_string (fst ` set S)"
    using Cons.prems(2) by (auto intro: inj_on_subset)
  have c: "distinct (map fst S)" using Cons.prems(3) by simp
  have d: "\<forall>k' \<in> fst ` set S. key_string k' \<notin> fst ` set (acc @ [(key_string k, v)])"
    using Cons.prems(4) other by auto
  have "state_to_data S (acc @ [(key_string k, v)]) =
        Inr ((acc @ [(key_string k, v)]) @ map (\<lambda>(k, v). (key_string k, v)) S)"
    using a b c d by (rule Cons.IH)
  then show ?case
    using kv by (simp add: join_key_string_pair[OF sk] dict_set_new[OF new])
qed

lemma map_of_key_string:
  assumes "inj_on key_string (fst ` set S)" and "map_of S K = Some V"
  shows "map_of (map (\<lambda>(k, v). (key_string k, v)) S) (key_string K) = Some V"
  using assms
proof (induction S)
  case Nil
  then show ?case by simp
next
  case (Cons kv S)
  obtain k v where kv: "kv = (k, v)" by (cases kv)
  show ?case
  proof (cases "k = K")
    case True
    with Cons.prems kv show ?thesis by simp
  next
    case False
    with Cons.prems kv have m: "map_of S K = Some V" by simp
    then have "K \<in> fst ` set S" by (force dest: map_of_SomeD)
    with kv have "K \<in> fst ` set (kv # S)" "k \<in> fst ` set (kv # S)" by auto
    with False have ne: "key_string k \<noteq> key_string K"
      using inj_onD[OF Cons.prems(1), of k K] by blast
    have "inj_on key_string (fst ` set S)"
      using Cons.prems(1) by (auto intro: inj_on_subset)
    from Cons.IH[OF this m] kv ne show ?thesis by simp
  qed
qed

lemma key_string_pair: "key_string [JStr a, JStr j] = a @ ''|'' @ j"
  by (simp add: key_string_def join_key_def)

lemma start_unmapped:
  "start_secondary_recording env b (JStr ''Unknown Ingest'') s =
     (Inr (), logging ERROR ''No DVR source ID found for logical name {logical_name}''
                [JStr ''Unknown Ingest''] s)"
  by (simp add: start_secondary_recording_def logical_name_to_dvr_source_id_def)

lemma stop_unmapped:
  "stop_secondary_recording env b (JStr ''Unknown Ingest'') s =
     (Inr (), logging ERROR ''No DVR source ID found for logical name {logical_name}''
                [JStr ''Unknown Ingest''] s)"
  by (simp add: stop_secondary_recording_def logical_name_to_dvr_source_id_def)

text \<open>
  Claim C9. Take an ingest whose id is a string that the static ingest-id map does not
  hold, in the list of active jobs, and a job of it whose file listing gives a basename
  \<open>b\<close>. The logical name of the ingest is \<^verbatim>\<open>Unknown Ingest\<close>. When the cycle runs to
  its end, the job set it stores holds the job under the pair of ingest id and job id,
  with basename \<open>b\<close> and logical name \<^verbatim>\<open>Unknown Ingest\<close>; when the save reaches the
  disk, the keys of the job set are pairs of strings and no two of them join to the same
  string, the state file and the status surface hold that record under the joined key.
  Every call of start-recording or stop-recording with the logical name
  \<^verbatim>\<open>Unknown Ingest\<close> logs that the name has no source and returns with no request made,
  since the map from logical names to sources has no such entry.
\<close>

theorem unknown_ingest:
  assumes unknown: "map_of ingest_id_map a = None"
    and payload: "env (trace st) GetActiveJobsInfo = Body (JList ingests)"
    and ingest: "ingest \<in> set ingests" "dict_get ingest ''ingestId'' JNull = Inr (JStr a)"
      "dict_get ingest ''activeJobsInfo'' (JList []) = Inr (JList js)"
    and job: "job \<in> set js" "dict_get job ''id'' JNull = Inr (JStr j)"
    and files: "\<forall>h. env h (GetFiles (JStr a) (JStr j)) = Body (JDict d)"
      "extract_primary_file_basename (JDict d) = Inr b" "truthy b"
    and completes: "process_polling_cycle env st = (Inr (), st')"
    and disk: "makedirs_ok st" "open_write_ok st"
    and keys: "\<forall>k \<in> fst ` set (previous_active_jobs st'). string_pair k"
      "inj_on key_string (fst ` set (previous_active_jobs st'))"
  shows "logical_name_of (JStr a) = Inr ''Unknown Ingest'' \<and>
    map_of (previous_active_jobs st') [JStr a, JStr j] = Some (job_info b ''Unknown Ingest'') \<and>
    (\<exists>data. state_file st' = Doc (JDict data) \<and> get_current_status st' = Inr data \<and>
       map_of data (a @ ''|'' @ j) = Some (job_info b ''Unknown Ingest'')) \<and>
    start_secondary_recording env' b' (JStr ''Unknown Ingest'') s =
      (Inr (), logging ERROR ''No DVR source ID found for logical name {logical_name}''
                 [JStr ''Unknown Ingest''] s) \<and>
    trace (snd (start_secondary_recording env' b' (JStr ''Unknown Ingest'') s)) = trace s \<and>
    stop_secondary_recording env' b' (JStr ''Unknown Ingest'') s =
      (Inr (), logging ERROR ''No DVR source ID found for logical name {logical_name}''
                 [JStr ''Unknown Ingest''] s) \<and>
    trace (snd (stop_secondary_recording env' b' (JStr ''Unknown Ingest'') s)) = trace s"
proof -
  obtain current s1 s3 where f: "fetch_current_active_jobs env st = (Inr current, s1)"
    and io: "io_only st s3" and st': "st' = save_state (s3\<lparr>previous_active_jobs := current\<rparr>)"
    using cycle_result[OF completes] by blast
  have prev: "previous_active_jobs st' = current"
    by (simp add: st' previous_save_state)
  from f have pi: "process_ingests env ingests []
      (st\<lparr>trace := trace st @ [GetActiveJobsInfo]\<rparr>) = (Inr current, s1)"
    using fetch_of_list[where env = env and st = st and ingests = ingests] payload by simp
  have stored: "map_of current [JStr a, JStr j] = Some (job_info b ''Unknown Ingest'')"
    using added_process_ingests[where env = env and a = a and j = "JStr j" and d = d and b = b
        and ingest = ingest and js = js and job = job and xs = ingests and current = "[]"
        and st = "st\<lparr>trace := trace st @ [GetActiveJobsInfo]\<rparr>"
        and current' = current and st' = s1]
      files unknown ingest job pi by blast
  have built: "cycle_built current" using f by (rule cycle_built_fetch)
  then have dist: "distinct (map fst current)" and dicts: "\<forall>v \<in> snd ` set current. is_dict v"
    by (auto simp: cycle_built_def list_all_iff dest: built_entry_dict)
  from keys prev have ik: "\<forall>k \<in> fst ` set current. string_pair k"
    and inj: "inj_on key_string (fst ` set current)" by simp_all
  define data where "data = map (\<lambda>(k, v). (key_string k, v)) current"
  have sd: "state_to_data current [] = Inr data"
    using state_to_data_strings[OF ik inj dist, of "[]"] by (simp add: data_def)
  have saved: "state_file st' = Doc (JDict data)"
    using io disk sd by (simp add: st' save_state_def io_only_def)
  have status: "get_current_status st' = Inr data"
    using status_of_dicts[OF dicts, of "[]"] sd prev by (simp add: get_current_status_def)
  have "map_of data (key_string [JStr a, JStr j]) = Some (job_info b ''Unknown Ingest'')"
    unfolding data_def using inj stored by (rule map_of_key_string)
  then have entry: "map_of data (a @ ''|'' @ j) = Some (job_info b ''Unknown Ingest'')"
    by (simp add: key_string_pair)
  have name: "logical_name_of (JStr a) = Inr ''Unknown Ingest''"
    using unknown by (rule unknown_logical_name)
  show ?thesis
    using name stored prev saved status entry
    by (simp add: start_unmapped stop_unmapped trace_logging)
qed


lemma unknown_site_cycle:
  "process_polling_cycle (site (one_job ''X-INGEST'' ''J7'') listing True) fresh =
     (Inr (), snd (process_polling_cycle (site (one_job ''X-INGEST'' ''J7'') listing True) fresh))"
  by (simp add: eval_defs)

lemma unknown_site_keys:
  "\<forall>k \<in> fst ` set (previous_active_jobs
      (snd (process_polling_cycle (site (one_job ''X-INGEST'' ''J7'') listing True) fresh))).
     string_pair k"
  by (simp add: eval_defs)

lemma unknown_site_inj:
  "inj_on key_string (fst ` set (previous_active_jobs
      (snd (process_polling_cycle (site (one_job ''X-INGEST'' ''J7'') listing True) fresh))))"
  by (simp add: eval_defs)

theorem unknown_ingest_witness:
  "map_of (previous_active_jobs
      (snd (process_polling_cycle (site (one_job ''X-INGEST'' ''J7'') listing True) fresh)))
     [JStr ''X-INGEST'', JStr ''J7''] =
       Some (job_info (JStr ''show_20240101'') ''Unknown Ingest'') \<and>
   (\<exists>data. state_file
        (snd (process_polling_cycle (site (one_job ''X-INGEST'' ''J7'') listing True) fresh)) =
          Doc (JDict data) \<and>
      get_current_status
        (snd (process_polling_cycle (site (one_job ''X-INGEST'' ''J7'') listing True) fresh)) =
          Inr data \<and>
      map_of data ''X-INGEST|J7'' = Some (job_info (JStr ''show_20240101'') ''Unknown Ingest'')) \<and>
   trace (snd (start_secondary_recording (site (one_job ''X-INGEST'' ''J7'') listing True)
                 (JStr ''show_20240101'') (JStr ''Unknown Ingest'') running)) = trace running \<and>
   trace (snd (stop_secondary_recording (site (one_job ''X-INGEST'' ''J7'') listing True)
                 (JStr ''show_20240101'') (JStr ''Unknown Ingest'') running)) = trace running"
proof -
  have unknown: "map_of ingest_id_map ''X-INGEST'' = None"
    by (simp add: ingest_id_map_def)
  have payload: "site (one_job ''X-INGEST'' ''J7'') listing True (trace fresh) GetActiveJobsInfo =
      Body (JList [JDict [(''ingestId'', JStr ''X-INGEST''),
                          (''activeJobsInfo'', JList [JDict [(''id'', JStr ''J7'')]])]])"
    by (simp add: site_def one_job_def)
  have i1: "JDict [(''ingestId'', JStr ''X-INGEST''),
                   (''activeJobsInfo'', JList [JDict [(''id'', JStr ''J7'')]])]
      \<in> set [JDict [(''ingestId'', JStr ''X-INGEST''),
                     (''activeJobsInfo'', JList [JDict [(''id'', JStr ''J7'')]])]]"
    by simp
  have i2: "dict_get (JDict [(''ingestId'', JStr ''X-INGEST''),
                   (''activeJobsInfo'', JList [JDict [(''id'', JStr ''J7'')]])])
              ''ingestId'' JNull = Inr (JStr ''X-INGEST'')"
    by simp
  have i3: "dict_get (JDict [(''ingestId'', JStr ''X-INGEST''),
                   (''activeJobsInfo'', JList [JDict [(''id'', JStr ''J7'')]])])
              ''activeJobsInfo'' (JList []) = Inr (JList [JDict [(''id'', JStr ''J7'')]])"
    by simp
  have j1: "JDict [(''id'', JStr ''J7'')] \<in> set [JDict [(''id'', JStr ''J7'')]]" by simp
  have j2: "dict_get (JDict [(''id'', JStr ''J7'')]) ''id'' JNull = Inr (JStr ''J7'')" by simp
  have f1: "\<forall>h. site (one_job ''X-INGEST'' ''J7'') listing True h
                  (GetFiles (JStr ''X-INGEST'') (JStr ''J7'')) =
      Body (JDict [(''data'',
             JList [JDict [(''presetTag'', JStr ''Proxy''), (''fileName'', JStr ''show_20240101_lo.mp4'')],
                    JDict [(''presetTag'', JStr ''Primary''), (''fileName'', JStr ''show_20240101.mp4'')]])])"
    by (simp add: site_def listing_def)
  have f2: "extract_primary_file_basename
      (JDict [(''data'',
             JList [JDict [(''presetTag'', JStr ''Proxy''), (''fileName'', JStr ''show_20240101_lo.mp4'')],
                    JDict [(''presetTag'', JStr ''Primary''), (''fileName'', JStr ''show_20240101.mp4'')]])])
      = Inr (JStr ''show_20240101'')"
    by (simp add: extract_primary_file_basename_def rsplit1_def)
  have f3: "truthy (JStr ''show_20240101'')" by simp
  have d1: "makedirs_ok fresh" and d2: "open_write_ok fresh" by (simp_all add: fresh_def)
  note w = unknown_ingest[OF unknown payload i1 i2 i3 j1 j2 f1 f2 f3 unknown_site_cycle d1 d2
      unknown_site_keys unknown_site_inj,
      where env' = "site (one_job ''X-INGEST'' ''J7'') listing True"
        and b' = "JStr ''show_20240101''" and s = running]
  have e: "''X-INGEST'' @ ''|'' @ ''J7'' = ''X-INGEST|J7''" by simp
  from w[unfolded e] show ?thesis by blast
qed

end
